theory Spec2Isabelle
  imports Main "HOL-Library.Sublist"
begin

section \<open>JavaScript values as the code sees them\<close>

text \<open>
  The servers are TypeScript programs on Node. Three runtime notions recur in the
  functions verified here and are fixed once:
  \<^item> a JSON value (what \<^verbatim>\<open>JSON.parse\<close> returns); numbers are the integers (millisecond
    time stamps, counts, ports), fractional numbers are outside this model;
  \<^item> the result of reading a property, which may be \<^verbatim>\<open>undefined\<close> or an inherited
    built-in such as \<^verbatim>\<open>Array.prototype.entries\<close>;
  \<^item> truthiness, which every \<^verbatim>\<open>if (x)\<close>, \<^verbatim>\<open>!x\<close>, \<^verbatim>\<open>a || b\<close> and \<^verbatim>\<open>a && b\<close> of the source
    consults.
\<close>

datatype json =
    JNull
  | JBool bool
  | JNum int
  | JStr string
  | JArr "json list"
  | JObj "(string \<times> json) list"

datatype jsval = Undefined | Builtin | Json json

fun truthy :: "jsval \<Rightarrow> bool" where
  "truthy Undefined = False"
| "truthy Builtin = True"
| "truthy (Json JNull) = False"
| "truthy (Json (JBool b)) = b"
| "truthy (Json (JNum n)) = (n \<noteq> 0)"
| "truthy (Json (JStr s)) = (s \<noteq> [])"
| "truthy (Json (JArr xs)) = True"
| "truthy (Json (JObj kvs)) = True"

text \<open>
  \<^verbatim>\<open>x.k\<close> for the property names the code reads from parsed JSON (\<^verbatim>\<open>userID\<close>,
  \<^verbatim>\<open>version\<close>, \<^verbatim>\<open>entries\<close>). Reading a property of \<^verbatim>\<open>null\<close> throws a TypeError
  (\<open>None\<close>); an array inherits \<^verbatim>\<open>entries\<close> from its prototype; numbers, booleans and
  strings have none of the three. An object is an association list with the first
  binding of a key being the one in force.
\<close>

fun get_prop :: "json \<Rightarrow> string \<Rightarrow> jsval option" where
  "get_prop JNull k = None"
| "get_prop (JObj kvs) k = Some (case map_of kvs k of Some v \<Rightarrow> Json v | None \<Rightarrow> Undefined)"
| "get_prop (JArr xs) k = Some (if k = ''entries'' then Builtin else Undefined)"
| "get_prop (JBool b) k = Some Undefined"
| "get_prop (JNum n) k = Some Undefined"
| "get_prop (JStr s) k = Some Undefined"

text \<open>
  A string that the program hands to \<^verbatim>\<open>JSON.parse\<close>, or that it obtained from
  \<^verbatim>\<open>JSON.stringify\<close>. Both are the runtime's, not the repository's, so a text is
  modelled by what the parser makes of it: either it is the serialisation of a JSON
  value, or it is not JSON at all (the characters are kept; the empty string is such a
  text). \<^verbatim>\<open>JSON.parse\<close> throws a SyntaxError on the latter, which is \<open>None\<close> here.
\<close>

datatype jtext = Doc json | Garbage string

fun JSON_parse :: "jtext \<Rightarrow> json option" where
  "JSON_parse (Doc j) = Some j"
| "JSON_parse (Garbage s) = None"

definition JSON_stringify :: "json \<Rightarrow> jtext" where
  "JSON_stringify j = Doc j"

text \<open>Truthiness of a string before it is parsed: only the empty string is falsy.\<close>

fun nonempty_text :: "jtext \<Rightarrow> bool" where
  "nonempty_text (Doc j) = True"
| "nonempty_text (Garbage s) = (s \<noteq> [])"

text \<open>An optional string as \<^verbatim>\<open>if (s)\<close> sees it: absent and empty are both falsy.\<close>

fun truthy_str :: "string option \<Rightarrow> bool" where
  "truthy_str None = False"
| "truthy_str (Some s) = (s \<noteq> [])"

fun truthy_text :: "jtext option \<Rightarrow> bool" where
  "truthy_text None = False"
| "truthy_text (Some t) = nonempty_text t"

section \<open>The file system\<close>

text \<open>
  Files are kept in the order in which \<^verbatim>\<open>readdirSync\<close> lists them. A path in
  \<open>fs_faulty\<close> makes every read and write of it throw (a permission or I/O error);
  \<^verbatim>\<open>existsSync\<close> only looks the name up. \<^verbatim>\<open>path.join(dir, name)\<close> is \<open>dir/name\<close>:
  the directories used are normalised already and a file name has no separator.
\<close>

datatype errno = ENOENT | EACCES

record disk =
  fs_files :: "(string \<times> jtext) list"
  fs_faulty :: "string list"

definition path_join :: "string \<Rightarrow> string \<Rightarrow> string" where
  "path_join dir name = dir @ ''/'' @ name"

definition existsSync :: "disk \<Rightarrow> string \<Rightarrow> bool" where
  "existsSync d p = (p \<in> set (map fst (fs_files d)))"

definition readFile :: "disk \<Rightarrow> string \<Rightarrow> errno + jtext" where
  "readFile d p =
     (if p \<in> set (fs_faulty d) then Inl EACCES
      else case map_of (fs_files d) p of None \<Rightarrow> Inl ENOENT | Some t \<Rightarrow> Inr t)"

text \<open>
  Assignment to a key of an ordered table (an object property, a \<^verbatim>\<open>Map\<close> entry, a file
  of the directory): an existing key keeps its place and gets the new value, a new key
  goes to the end.
\<close>

fun obj_set :: "'k \<Rightarrow> 'v \<Rightarrow> ('k \<times> 'v) list \<Rightarrow> ('k \<times> 'v) list" where
  "obj_set k v [] = [(k, v)]"
| "obj_set k v ((q, u) # kvs) = (if q = k then (k, v) # kvs else (q, u) # obj_set k v kvs)"

definition obj_delete :: "'k \<Rightarrow> ('k \<times> 'v) list \<Rightarrow> ('k \<times> 'v) list" where
  "obj_delete k kvs = filter (\<lambda>(q, u). q \<noteq> k) kvs"

definition writeFile :: "disk \<Rightarrow> string \<Rightarrow> jtext \<Rightarrow> errno + disk" where
  "writeFile d p t =
     (if p \<in> set (fs_faulty d) then Inl EACCES
      else Inr (d\<lparr>fs_files := obj_set p t (fs_files d)\<rparr>))"

definition unlink :: "disk \<Rightarrow> string \<Rightarrow> errno + disk" where
  "unlink d p =
     (if p \<in> set (fs_faulty d) then Inl EACCES
      else if existsSync d p then Inr (d\<lparr>fs_files := obj_delete p (fs_files d)\<rparr>)
      else Inl ENOENT)"

text \<open>The names directly inside \<open>dir\<close>; \<open>None\<close> when listing the directory throws.\<close>

definition child_name :: "string \<Rightarrow> string \<Rightarrow> string option" where
  "child_name dir p =
     (let n = length dir + 1; name = drop n p
      in if take n p = dir @ ''/'' \<and> name \<noteq> [] \<and> CHR ''/'' \<notin> set name
         then Some name else None)"

definition readdirSync :: "disk \<Rightarrow> string \<Rightarrow> string list option" where
  "readdirSync d dir =
     (if dir \<in> set (fs_faulty d) then None
      else Some (List.map_filter (child_name dir) (map fst (fs_files d))))"

section \<open>String operations of the runtime\<close>

text \<open>
  A character is a code unit below 256, the Latin-1 range of the runtime's strings, and
  the length of a string is the number of its code units. On this range \<^verbatim>\<open>toLowerCase\<close>
  changes the capital letters only, which are A to Z (65 to 90) and the accented
  capitals 192 to 222 without the multiplication sign 215; each has its small letter 32
  places further on.
\<close>

definition lower_char :: "char \<Rightarrow> char" where
  "lower_char c =
     (let n = (of_char c :: nat)
      in if (65 \<le> n \<and> n \<le> 90) \<or> (192 \<le> n \<and> n \<le> 222 \<and> n \<noteq> 215)
         then char_of (n + 32) else c)"

definition toLowerCase :: "string \<Rightarrow> string" where
  "toLowerCase s = map lower_char s"

definition startsWith :: "string \<Rightarrow> string \<Rightarrow> bool" where
  "startsWith s p = (take (length p) s = p)"

fun str_includes :: "string \<Rightarrow> string \<Rightarrow> bool" where
  "str_includes [] sub = (sub = [])"
| "str_includes (c # cs) sub = (startsWith (c # cs) sub \<or> str_includes cs sub)"

text \<open>\<^verbatim>\<open>s.substring(0, n)\<close>: a negative \<open>n\<close> counts as 0, one beyond the end as the length.\<close>

definition substring0 :: "string \<Rightarrow> int \<Rightarrow> string" where
  "substring0 s n = take (nat n) s"

section \<open>The fuzzy token-file scan (findCaseInsensitiveTokenFile)\<close>

text \<open>
  \<^verbatim>\<open>fileLower.match(/^\.(.+)-gcp-saved-tokens/)\<close>, group 1. The name must start with a
  dot; \<^verbatim>\<open>.+\<close> is greedy and does not cross a line terminator, so the group is the
  longest non-empty run after the dot that is followed by the literal.
\<close>

definition isLineTerminator :: "char \<Rightarrow> bool" where
  "isLineTerminator c = (of_char c = (10::nat) \<or> of_char c = (13::nat))"

fun greedy_capture :: "string \<Rightarrow> string \<Rightarrow> nat \<Rightarrow> string option" where
  "greedy_capture rest lit 0 = None"
| "greedy_capture rest lit (Suc k) =
     (if startsWith (drop (Suc k) rest) lit then Some (take (Suc k) rest)
      else greedy_capture rest lit k)"

definition fileIdMatch :: "string \<Rightarrow> string option" where
  "fileIdMatch fileLower =
     (case fileLower of
        [] \<Rightarrow> None
      | c # rest \<Rightarrow>
          if c = CHR ''.''
          then greedy_capture rest ''-gcp-saved-tokens''
                 (length (takeWhile (\<lambda>c. \<not> isLineTerminator c) rest))
          else None)"

text \<open>
  The test of the innermost \<^verbatim>\<open>if\<close>:
  \<^verbatim>\<open>fileId.startsWith(searchPrefix) ||
  searchPrefix.startsWith(fileId.substring(0, Math.min(fileId.length, searchPrefix.length)))\<close>
\<close>

definition prefix_match :: "string \<Rightarrow> string \<Rightarrow> bool" where
  "prefix_match fileId searchPrefix =
     (startsWith fileId searchPrefix \<or>
      startsWith searchPrefix
        (substring0 fileId (min (int (length fileId)) (int (length searchPrefix)))))"

text \<open>The inner loop \<^verbatim>\<open>for (const file of files)\<close> for one search prefix.\<close>

fun scan_files :: "string \<Rightarrow> string list \<Rightarrow> string option" where
  "scan_files searchPrefix [] = None"
| "scan_files searchPrefix (file # files) =
     (if str_includes file ''gcp-saved-tokens''
      then (case fileIdMatch (toLowerCase file) of
              Some fileId \<Rightarrow>
                if prefix_match fileId searchPrefix then Some file
                else scan_files searchPrefix files
            | None \<Rightarrow> scan_files searchPrefix files)
      else scan_files searchPrefix files)"

text \<open>The outer loop \<^verbatim>\<open>for (const prefixLength of prefixLengths)\<close>.\<close>

fun scan_prefixes :: "string \<Rightarrow> string list \<Rightarrow> int list \<Rightarrow> string option" where
  "scan_prefixes targetLower files [] = None"
| "scan_prefixes targetLower files (prefixLength # rest) =
     (case scan_files (substring0 targetLower prefixLength) files of
        Some file \<Rightarrow> Some file
      | None \<Rightarrow> scan_prefixes targetLower files rest)"

definition prefixLengths :: "string \<Rightarrow> int list" where
  "prefixLengths targetLower =
     [int (length targetLower), max 6 (int (length targetLower) - 4), 3]"

text \<open>
  The function exists twice with the same body: as a method of the Gmail server's
  UserManager over \<^verbatim>\<open>CONFIG_DIR\<close> and as an export of the Calendar server's auth utilities
  over the project root. \<open>dir\<close> is that directory; a throwing \<^verbatim>\<open>readdirSync\<close> is caught
  and gives \<^verbatim>\<open>null\<close>.
\<close>

definition findCaseInsensitiveTokenFile :: "disk \<Rightarrow> string \<Rightarrow> string \<Rightarrow> string option" where
  "findCaseInsensitiveTokenFile d dir userHashID =
     (case readdirSync d dir of
        None \<Rightarrow> None
      | Some files \<Rightarrow>
          let targetLower = toLowerCase userHashID
          in map_option (path_join dir)
               (scan_prefixes targetLower files (prefixLengths targetLower)))"

text \<open>
  The two loops said with \<open>find\<close> of the list library: the inner loop returns the first
  file of the listing that passes the tests of its body, and the outer loop is three
  such searches, one after the other. That the loops are these searches is proved
  below (\<open>scan_files_find\<close>, \<open>scan_prefixes_listing\<close>).
\<close>

definition file_matches :: "string \<Rightarrow> string \<Rightarrow> bool" where
  "file_matches searchPrefix file =
     (str_includes file ''gcp-saved-tokens'' \<and>
      (case fileIdMatch (toLowerCase file) of
         Some fileId \<Rightarrow> prefix searchPrefix fileId \<or> prefix fileId searchPrefix
       | None \<Rightarrow> False))"

definition scan_listing :: "string \<Rightarrow> string list \<Rightarrow> string option" where
  "scan_listing s listing =
     (let t = toLowerCase s
      in case find (file_matches t) listing of
           Some file \<Rightarrow> Some file
         | None \<Rightarrow>
             (case find (file_matches (take (max 6 (length t - 4)) t)) listing of
                Some file \<Rightarrow> Some file
              | None \<Rightarrow> find (file_matches (take 3 t)) listing))"

section \<open>The lookup cache (UserHashCache)\<close>

text \<open>
  The cache as the interface \<^verbatim>\<open>CacheData\<close> types it: a version and the object \<^verbatim>\<open>entries\<close>,
  a table from the original user hash to the entry. The identities are strings that
  nothing validates, so the table is modelled as the object it is:
  \<^item> \<open>cache_entries\<close> are its own properties in the order in which \<^verbatim>\<open>Object.entries\<close> and
    \<^verbatim>\<open>JSON.stringify\<close> enumerate them;
  \<^item> \<open>entries_prototype\<close> is its prototype where that is no longer \<^verbatim>\<open>Object.prototype\<close>: the
    assignment \<^verbatim>\<open>entries['__proto__'] = e\<close> of \<^verbatim>\<open>addEntry\<close> makes the entry \<open>e\<close> the prototype
    (\<open>None\<close> is \<^verbatim>\<open>Object.prototype\<close>);
  \<^item> \<open>Object_prototype_lastAccessed\<close> is the property \<^verbatim>\<open>lastAccessed\<close> of \<^verbatim>\<open>Object.prototype\<close>,
    which \<^verbatim>\<open>getTokenFilename('__proto__')\<close> creates (\<open>None\<close> while there is none).
\<close>

record CacheEntry =
  originalUserHashID :: string
  actualTokenFilename :: string
  createdAt :: int
  lastAccessed :: int

record UserHashCache =
  cacheFilePath :: string
  cache_version :: string
  cache_entries :: "(string \<times> CacheEntry) list"
  entries_prototype :: "CacheEntry option"
  Object_prototype_lastAccessed :: "int option"
  isDirty :: bool

subsection \<open>Properties of an object\<close>

text \<open>
  An object enumerates its own properties with the array indices first, in ascending
  order, and the other names after them in the order of their creation. An array index
  is the decimal numeral, without a leading zero, of a number from 0 to \<open>2\<^sup>3\<^sup>2 - 2\<close>.
\<close>

definition digit_of :: "char \<Rightarrow> nat option" where
  "digit_of c =
     (let n = (of_char c :: nat) in if 48 \<le> n \<and> n \<le> 57 then Some (n - 48) else None)"

fun decimal :: "nat \<Rightarrow> string \<Rightarrow> nat option" where
  "decimal acc [] = Some acc"
| "decimal acc (c # cs) =
     (case digit_of c of None \<Rightarrow> None | Some dgt \<Rightarrow> decimal (10 * acc + dgt) cs)"

definition array_index :: "string \<Rightarrow> nat option" where
  "array_index k =
     (if k = [] \<or> (hd k = CHR ''0'' \<and> tl k \<noteq> []) then None
      else case decimal 0 k of
             Some n \<Rightarrow> if n \<le> 4294967294 then Some n else None
           | None \<Rightarrow> None)"

text \<open>A new array index goes before the first property that is no array index or is a
  greater one.\<close>

fun insert_index :: "nat \<Rightarrow> string \<Rightarrow> 'v \<Rightarrow> (string \<times> 'v) list \<Rightarrow> (string \<times> 'v) list" where
  "insert_index n k v [] = [(k, v)]"
| "insert_index n k v ((q, u) # kvs) =
     (case array_index q of
        Some m \<Rightarrow> if m < n then (q, u) # insert_index n k v kvs else (k, v) # (q, u) # kvs
      | None \<Rightarrow> (k, v) # (q, u) # kvs)"

text \<open>
  \<^verbatim>\<open>obj[k] = v\<close> on the own properties, for a name \<open>k\<close> that is a data property or no
  property of the object: an existing property keeps its place, a new one is created.
\<close>

definition js_set :: "string \<Rightarrow> 'v \<Rightarrow> (string \<times> 'v) list \<Rightarrow> (string \<times> 'v) list" where
  "js_set k v obj =
     (if k \<in> set (map fst obj) then obj_set k v obj
      else case array_index k of
             Some n \<Rightarrow> insert_index n k v obj
           | None \<Rightarrow> obj @ [(k, v)])"

text \<open>
  What \<^verbatim>\<open>this.cache.entries[k]\<close> is for a name \<open>k\<close> that is no own property. The name
  \<^verbatim>\<open>__proto__\<close> is the accessor of \<^verbatim>\<open>Object.prototype\<close> and gives the prototype of the table.
  Any other name is looked up along the prototypes: in the entry that has become the
  prototype, whose four fields are primitive values, and then in \<^verbatim>\<open>Object.prototype\<close>,
  which has its methods and, once created, the number \<^verbatim>\<open>lastAccessed\<close>.
\<close>

datatype inherited =
    PrototypeEntry CacheEntry
  | ObjectPrototype
  | Method
  | Primitive json
  | NoProperty

definition Object_prototype_methods :: "string list" where
  "Object_prototype_methods =
     [''constructor'', ''__defineGetter__'', ''__defineSetter__'', ''hasOwnProperty'',
      ''__lookupGetter__'', ''__lookupSetter__'', ''isPrototypeOf'', ''propertyIsEnumerable'',
      ''toString'', ''valueOf'', ''toLocaleString'']"

definition Object_prototype_get :: "UserHashCache \<Rightarrow> string \<Rightarrow> inherited" where
  "Object_prototype_get c k =
     (if k \<in> set Object_prototype_methods then Method
      else if k = ''lastAccessed''
      then (case Object_prototype_lastAccessed c of
              Some n \<Rightarrow> Primitive (JNum n)
            | None \<Rightarrow> NoProperty)
      else NoProperty)"

definition inherited_get :: "UserHashCache \<Rightarrow> string \<Rightarrow> inherited" where
  "inherited_get c k =
     (case entries_prototype c of
        None \<Rightarrow> if k = ''__proto__'' then ObjectPrototype else Object_prototype_get c k
      | Some e \<Rightarrow>
          if k = ''__proto__'' then PrototypeEntry e
          else if k = ''originalUserHashID'' then Primitive (JStr (originalUserHashID e))
          else if k = ''actualTokenFilename'' then Primitive (JStr (actualTokenFilename e))
          else if k = ''createdAt'' then Primitive (JNum (createdAt e))
          else if k = ''lastAccessed'' then Primitive (JNum (lastAccessed e))
          else Object_prototype_get c k)"

text \<open>Objects and functions are truthy, a primitive value as \<open>truthy\<close> says.\<close>

fun inherited_truthy :: "inherited \<Rightarrow> bool" where
  "inherited_truthy (Primitive v) = truthy (Json v)"
| "inherited_truthy NoProperty = False"
| "inherited_truthy i = True"

subsection \<open>The methods\<close>

definition entry_json :: "CacheEntry \<Rightarrow> json" where
  "entry_json e =
     JObj [(''originalUserHashID'', JStr (originalUserHashID e)),
           (''actualTokenFilename'', JStr (actualTokenFilename e)),
           (''createdAt'', JNum (createdAt e)),
           (''lastAccessed'', JNum (lastAccessed e))]"

text \<open>\<^verbatim>\<open>this.cache\<close> as \<^verbatim>\<open>JSON.stringify\<close> sees it: the own properties only.\<close>

definition cache_json :: "UserHashCache \<Rightarrow> json" where
  "cache_json c =
     JObj [(''version'', JStr (cache_version c)),
           (''entries'', JObj (map (\<lambda>(k, e). (k, entry_json e)) (cache_entries c)))]"

text \<open>
  \<^verbatim>\<open>saveCache\<close>: nothing to do unless dirty; a failing write is logged and swallowed, the
  dirty flag then stays set.
\<close>

definition saveCache :: "UserHashCache \<Rightarrow> disk \<Rightarrow> UserHashCache \<times> disk" where
  "saveCache c d =
     (if \<not> isDirty c then (c, d)
      else case writeFile d (cacheFilePath c) (JSON_stringify (cache_json c)) of
             Inr d' \<Rightarrow> (c\<lparr>isDirty := False\<rparr>, d')
           | Inl err \<Rightarrow> (c, d))"

text \<open>
  \<^verbatim>\<open>addEntry\<close>. \<^verbatim>\<open>this.cache.entries[orig]?.createdAt || now\<close> keeps the creation time of an
  entry that is there, own or as the prototype; a method or a primitive value has no
  \<^verbatim>\<open>createdAt\<close>. The assignment creates or replaces the own property, except for the name
  \<^verbatim>\<open>__proto__\<close> where the table has no own property of that name: there it calls the
  accessor, which makes the new entry the prototype of the table.
\<close>

definition addEntry ::
  "int \<Rightarrow> UserHashCache \<Rightarrow> disk \<Rightarrow> string \<Rightarrow> string \<Rightarrow> UserHashCache \<times> disk" where
  "addEntry now c d orig fname =
     (let keep = (\<lambda>old. if createdAt old \<noteq> 0 then createdAt old else now);
          created = (case map_of (cache_entries c) orig of
                       Some old \<Rightarrow> keep old
                     | None \<Rightarrow>
                         (case inherited_get c orig of
                            PrototypeEntry old \<Rightarrow> keep old
                          | _ \<Rightarrow> now));
          e = \<lparr>originalUserHashID = orig, actualTokenFilename = fname,
               createdAt = created, lastAccessed = now\<rparr>
      in if orig = ''__proto__'' \<and> map_of (cache_entries c) orig = None
         then saveCache (c\<lparr>entries_prototype := Some e, isDirty := True\<rparr>) d
         else saveCache (c\<lparr>cache_entries := js_set orig e (cache_entries c),
                           isDirty := True\<rparr>) d)"

text \<open>
  \<^verbatim>\<open>getTokenFilename\<close>; \<open>None\<close> is a TypeError thrown. An own entry is touched and its file
  name returned. A name that is no own property but inherited is a hit as well, since
  \<^verbatim>\<open>if (entry)\<close> asks for truthiness only: \<^verbatim>\<open>entry.lastAccessed = Date.now()\<close> then writes to
  the prototype entry, to \<^verbatim>\<open>Object.prototype\<close> or to the method (which nothing reads
  again), and throws on a primitive value, the module being in strict mode; the cache is
  marked dirty and saved, and the result is the file name of the prototype entry or, of
  the others, \<^verbatim>\<open>undefined\<close>.
\<close>

definition getTokenFilename ::
  "int \<Rightarrow> UserHashCache \<Rightarrow> disk \<Rightarrow> string \<Rightarrow> (string option \<times> UserHashCache \<times> disk) option" where
  "getTokenFilename now c d orig =
     (case map_of (cache_entries c) orig of
        Some entry \<Rightarrow>
          (let c' = c\<lparr>cache_entries :=
                        obj_set orig (entry\<lparr>lastAccessed := now\<rparr>) (cache_entries c),
                      isDirty := True\<rparr>;
               (c'', d') = saveCache c' d
           in Some (Some (actualTokenFilename entry), c'', d'))
      | None \<Rightarrow>
          (case inherited_get c orig of
             PrototypeEntry entry \<Rightarrow>
               (let c' = c\<lparr>entries_prototype := Some (entry\<lparr>lastAccessed := now\<rparr>),
                           isDirty := True\<rparr>;
                    (c'', d') = saveCache c' d
                in Some (Some (actualTokenFilename entry), c'', d'))
           | ObjectPrototype \<Rightarrow>
               (let c' = c\<lparr>Object_prototype_lastAccessed := Some now, isDirty := True\<rparr>;
                    (c'', d') = saveCache c' d
                in Some (None, c'', d'))
           | Method \<Rightarrow>
               (let (c'', d') = saveCache (c\<lparr>isDirty := True\<rparr>) d
                in Some (None, c'', d'))
           | Primitive v \<Rightarrow> if truthy (Json v) then None else Some (None, c, d)
           | NoProperty \<Rightarrow> Some (None, c, d)))"

text \<open>
  \<^verbatim>\<open>removeEntry\<close>: \<^verbatim>\<open>delete\<close> removes an own property and does nothing for an inherited
  one, which is truthy all the same.
\<close>

definition removeEntry ::
  "UserHashCache \<Rightarrow> disk \<Rightarrow> string \<Rightarrow> bool \<times> UserHashCache \<times> disk" where
  "removeEntry c d orig =
     (case map_of (cache_entries c) orig of
        Some entry \<Rightarrow>
          (let (c', d') = saveCache (c\<lparr>cache_entries := obj_delete orig (cache_entries c),
                                         isDirty := True\<rparr>) d
           in (True, c', d'))
      | None \<Rightarrow>
          if inherited_truthy (inherited_get c orig)
          then (let (c', d') = saveCache (c\<lparr>isDirty := True\<rparr>) d in (True, c', d'))
          else (False, c, d))"

text \<open>\<^verbatim>\<open>getAllEntries\<close>: the spread copies the own properties.\<close>

definition getAllEntries :: "UserHashCache \<Rightarrow> (string \<times> CacheEntry) list" where
  "getAllEntries c = cache_entries c"

section \<open>Loading the cache file (UserHashCache.loadCache, initialize)\<close>

text \<open>
  What \<^verbatim>\<open>loadCache\<close> reads is cast to \<^verbatim>\<open>CacheData\<close> without a check of its types, so here
  the in-memory cache is the JSON value itself. The errors the \<^verbatim>\<open>try\<close> block can raise:
\<close>

datatype load_error = ReadError errno | SyntaxError | TypeError | InvalidCacheStructure

definition empty_cache :: json where
  "empty_cache = JObj [(''version'', JStr ''1.0.0''), (''entries'', JObj [])]"

text \<open>The structural check \<^verbatim>\<open>loadedCache.version && loadedCache.entries\<close>.\<close>

definition cache_structure_ok :: "json \<Rightarrow> bool option" where
  "cache_structure_ok loadedCache =
     (case get_prop loadedCache ''version'' of
        None \<Rightarrow> None
      | Some v \<Rightarrow>
          if truthy v
          then (case get_prop loadedCache ''entries'' of
                  None \<Rightarrow> None
                | Some es \<Rightarrow> Some (truthy es))
          else Some False)"

text \<open>The body of the \<^verbatim>\<open>try\<close> block of \<^verbatim>\<open>loadCache\<close>.\<close>

definition loadCache_try :: "disk \<Rightarrow> string \<Rightarrow> load_error + json" where
  "loadCache_try d path =
     (case readFile d path of
        Inl err \<Rightarrow> Inl (ReadError err)
      | Inr cacheContent \<Rightarrow>
          (case JSON_parse cacheContent of
             None \<Rightarrow> Inl SyntaxError
           | Some loadedCache \<Rightarrow>
               (case cache_structure_ok loadedCache of
                  None \<Rightarrow> Inl TypeError
                | Some True \<Rightarrow> Inr loadedCache
                | Some False \<Rightarrow> Inl InvalidCacheStructure)))"

text \<open>
  \<^verbatim>\<open>loadCache\<close> with its \<^verbatim>\<open>catch\<close>: every error is logged and the cache is reset. The
  result is the new value of \<^verbatim>\<open>this.cache\<close>, or the error that leaves the method.
\<close>

definition loadCache :: "disk \<Rightarrow> string \<Rightarrow> load_error + json" where
  "loadCache d path =
     (case loadCache_try d path of
        Inr loadedCache \<Rightarrow> Inr loadedCache
      | Inl err \<Rightarrow> Inr empty_cache)"

text \<open>
  \<^verbatim>\<open>initialize\<close>, \<open>cache0\<close> being what \<^verbatim>\<open>this.cache\<close> holds before the call (the constructor
  sets it to the empty table): an error leaving \<^verbatim>\<open>loadCache\<close> is caught and logged, and
  \<^verbatim>\<open>this.cache\<close> stays what it was.
\<close>

definition initialize :: "disk \<Rightarrow> string \<Rightarrow> json \<Rightarrow> load_error + json" where
  "initialize d path cache0 =
     (case loadCache d path of
        Inr cache \<Rightarrow> Inr cache
      | Inl err \<Rightarrow> Inr cache0)"

section \<open>Credentials held by an OAuth client (Calendar server, TokenManager)\<close>

text \<open>
  \<^verbatim>\<open>oauth2Client.credentials\<close> with the three fields \<^verbatim>\<open>refreshTokensIfNeeded\<close> reads.
  \<open>None\<close> is a field that is absent (\<^verbatim>\<open>undefined\<close> or \<^verbatim>\<open>null\<close>).
\<close>

record Credentials =
  access_token :: "string option"
  refresh_token :: "string option"
  expiry_date :: "int option"

text \<open>
  \<^verbatim>\<open>
  const expiryDate = this.oauth2Client.credentials.expiry_date;
  const isExpired = expiryDate
    ? Date.now() >= expiryDate - 5 * 60 * 1000 // 5 minute buffer
    : !this.oauth2Client.credentials.access_token; // No token means we need one
  \<close>
\<close>

definition isExpired :: "int \<Rightarrow> Credentials \<Rightarrow> bool" where
  "isExpired now c =
     (case expiry_date c of
        None \<Rightarrow> \<not> truthy_str (access_token c)
      | Some e \<Rightarrow>
          if e \<noteq> 0 then now \<ge> e - 5 * 60 * 1000
          else \<not> truthy_str (access_token c))"


text \<open>
  The client keeps whatever object \<^verbatim>\<open>setCredentials\<close> was given; the fields are read
  through their declared types (\<^verbatim>\<open>string\<close>, \<^verbatim>\<open>number\<close>), anything else counts as absent.
\<close>

definition str_prop :: "json \<Rightarrow> string \<Rightarrow> string option" where
  "str_prop j k = (case get_prop j k of Some (Json (JStr s)) \<Rightarrow> Some s | _ \<Rightarrow> None)"

definition num_prop :: "json \<Rightarrow> string \<Rightarrow> int option" where
  "num_prop j k = (case get_prop j k of Some (Json (JNum n)) \<Rightarrow> Some n | _ \<Rightarrow> None)"

definition creds :: "json \<Rightarrow> Credentials" where
  "creds j =
     \<lparr>access_token = str_prop j ''access_token'',
      refresh_token = str_prop j ''refresh_token'',
      expiry_date = num_prop j ''expiry_date''\<rparr>"

section \<open>Token paths of the Calendar server (auth utilities)\<close>

definition getSecureTokenPathWithUserHash :: "string \<Rightarrow> string \<Rightarrow> string" where
  "getSecureTokenPathWithUserHash projectRoot userHash =
     path_join projectRoot (''.'' @ userHash @ ''-gcp-saved-tokens.json'')"

text \<open>
  \<^verbatim>\<open>getSecureTokenPathWithFuzzyMatching\<close>: the exact path if it exists, else the fuzzy
  match, else the exact path although it does not exist.
\<close>

definition getSecureTokenPathWithFuzzyMatching :: "disk \<Rightarrow> string \<Rightarrow> string \<Rightarrow> string" where
  "getSecureTokenPathWithFuzzyMatching d projectRoot userHash =
     (let exactPath = getSecureTokenPathWithUserHash projectRoot userHash
      in if existsSync d exactPath then exactPath
         else case findCaseInsensitiveTokenFile d projectRoot userHash of
                Some fuzzyPath \<Rightarrow> fuzzyPath
              | None \<Rightarrow> exactPath)"

text \<open>
  \<^verbatim>\<open>getSecureTokenPathWithCacheAndFuzzyMatching\<close>. The cache instance is the process-wide
  singleton, taken as initialised. The lookup touches the entry and rewrites the cache
  file, hence the cache and the disk are returned with the path. A TypeError of the
  lookup is caught and logged, and the resolution goes on with the fuzzy matching.
\<close>

definition getSecureTokenPathWithCacheAndFuzzyMatching ::
  "int \<Rightarrow> UserHashCache \<Rightarrow> disk \<Rightarrow> string \<Rightarrow> string \<Rightarrow> string \<times> UserHashCache \<times> disk" where
  "getSecureTokenPathWithCacheAndFuzzyMatching now c d projectRoot userHash =
     (case getTokenFilename now c d userHash of
        None \<Rightarrow> (getSecureTokenPathWithFuzzyMatching d projectRoot userHash, c, d)
      | Some (cachedPath, c1, d1) \<Rightarrow>
          if truthy_str cachedPath \<and> existsSync d1 (the cachedPath)
          then (the cachedPath, c1, d1)
          else if truthy_str cachedPath
          then (let (removed, c2, d2) = removeEntry c1 d1 userHash
                in (getSecureTokenPathWithFuzzyMatching d2 projectRoot userHash, c2, d2))
          else (getSecureTokenPathWithFuzzyMatching d1 projectRoot userHash, c1, d1))"

section \<open>TokenManager (Calendar server)\<close>

record TokenManager =
  tokenPath :: string
  credentials :: json

definition getSecureTokenPath :: "string \<Rightarrow> string" where
  "getSecureTokenPath projectRoot = path_join projectRoot ''.gcp-saved-tokens.json''"

text \<open>
  The constructor \<^verbatim>\<open>new TokenManager(oauth2Client, userID?)\<close> on a client without
  credentials: with a user id the token path is resolved once, with the fuzzy fallback;
  without one (absent or empty) it is the single-user token file.
\<close>

definition TokenManager_new :: "disk \<Rightarrow> string \<Rightarrow> string option \<Rightarrow> TokenManager" where
  "TokenManager_new d projectRoot uid =
     \<lparr>tokenPath = (if truthy_str uid
                   then getSecureTokenPathWithFuzzyMatching d projectRoot (the uid)
                   else getSecureTokenPath projectRoot),
      credentials = JObj []\<rparr>"

text \<open>
  A token object as a caller passes it: the fields in enumeration order, \<open>None\<close> for a
  field that is present with the value \<^verbatim>\<open>undefined\<close>, \<open>Some JNull\<close> for \<^verbatim>\<open>null\<close>.
  \<^verbatim>\<open>JSON.stringify\<close> leaves out the undefined fields and keeps the null ones.
\<close>

type_synonym tokens = "(string \<times> json option) list"

definition own_json :: "tokens \<Rightarrow> json" where
  "own_json T = JObj (List.map_filter (\<lambda>(k, v). map_option (Pair k) v) T)"

text \<open>
  \<^verbatim>\<open>saveTokens(tokens, originalUserHashID?)\<close>, the second argument being \<open>origID\<close>.
  Creating the directory is taken to succeed; a failing write is logged and thrown
  again.
\<close>

definition saveTokens ::
  "int \<Rightarrow> TokenManager \<Rightarrow> UserHashCache \<Rightarrow> disk \<Rightarrow> tokens \<Rightarrow> string option
     \<Rightarrow> errno + (TokenManager \<times> UserHashCache \<times> disk)" where
  "saveTokens now tm c d T origID =
     (case writeFile d (tokenPath tm) (JSON_stringify (own_json T)) of
        Inl err \<Rightarrow> Inl err
      | Inr d1 \<Rightarrow>
          (let tm1 = tm\<lparr>credentials := own_json T\<rparr>
           in if truthy_str origID \<and> tokenPath tm \<noteq> []
              then (let (c2, d2) = addEntry now c d1 (the origID) (tokenPath tm)
                    in Inr (tm1, c2, d2))
              else Inr (tm1, c, d1)))"

text \<open>\<^verbatim>\<open>!tokens || typeof tokens !== "object"\<close> is false for objects and arrays only.\<close>

fun is_object :: "json \<Rightarrow> bool" where
  "is_object (JObj kvs) = True"
| "is_object (JArr xs) = True"
| "is_object j = False"

text \<open>
  \<^verbatim>\<open>loadSavedTokensWithUserHash\<close>. Creating the directory is taken to succeed. The
  \<^verbatim>\<open>catch\<close> removes the file only for an error that carries a code other than ENOENT;
  a SyntaxError carries none. A failing \<^verbatim>\<open>unlink\<close> is ignored.
\<close>

definition loadSavedTokensWithUserHash ::
  "disk \<Rightarrow> string \<Rightarrow> TokenManager \<Rightarrow> string \<Rightarrow> bool \<times> TokenManager \<times> disk" where
  "loadSavedTokensWithUserHash d projectRoot tm userHashID =
     (let tm1 = tm\<lparr>tokenPath := getSecureTokenPathWithFuzzyMatching d projectRoot userHashID\<rparr>
      in if \<not> existsSync d (tokenPath tm1) then (False, tm1, d)
         else case readFile d (tokenPath tm1) of
                Inl ENOENT \<Rightarrow> (False, tm1, d)
              | Inl err \<Rightarrow>
                  (case unlink d (tokenPath tm1) of
                     Inr d' \<Rightarrow> (False, tm1, d')
                   | Inl err' \<Rightarrow> (False, tm1, d))
              | Inr content \<Rightarrow>
                  (case JSON_parse content of
                     None \<Rightarrow> (False, tm1, d)
                   | Some T \<Rightarrow>
                       if \<not> truthy (Json T) \<or> \<not> is_object T then (False, tm1, d)
                       else (True, tm1\<lparr>credentials := T\<rparr>, d)))"

text \<open>The provider's answer to \<^verbatim>\<open>oauth2Client.refreshAccessToken()\<close>.\<close>

datatype refresh_response =
    NewTokens json
  | InvalidGrant
  | RefreshFailed

text \<open>
  The loop of the \<^verbatim>\<open>invalid_grant\<close> branch: the first entry, in enumeration order, whose
  \<^verbatim>\<open>actualTokenFilename\<close> is the manager's token path.
\<close>

fun entry_for_path :: "string \<Rightarrow> (string \<times> CacheEntry) list \<Rightarrow> string option" where
  "entry_for_path p [] = None"
| "entry_for_path p ((userHashID, entry) # es) =
     (if actualTokenFilename entry = p then Some userHashID else entry_for_path p es)"

text \<open>
  \<^verbatim>\<open>refreshTokensIfNeeded\<close>. On success the new tokens replace the client's credentials
  (writing them to the file is the business of the client's \<^verbatim>\<open>tokens\<close> listener, not
  of this method). New tokens without an access token are an error of the ordinary
  kind.
\<close>

definition refreshTokensIfNeeded ::
  "int \<Rightarrow> refresh_response \<Rightarrow> TokenManager \<Rightarrow> UserHashCache \<Rightarrow> disk
     \<Rightarrow> bool \<times> TokenManager \<times> UserHashCache \<times> disk" where
  "refreshTokensIfNeeded now response tm c d =
     (let cr = creds (credentials tm)
      in if isExpired now cr \<and> truthy_str (refresh_token cr)
         then (case response of
                 NewTokens newTokens \<Rightarrow>
                   if \<not> truthy_str (access_token (creds newTokens)) then (False, tm, c, d)
                   else (True, tm\<lparr>credentials := newTokens\<rparr>, c, d)
               | InvalidGrant \<Rightarrow>
                   (case entry_for_path (tokenPath tm) (getAllEntries c) of
                      Some userHashID \<Rightarrow>
                        (let (removed, c', d') = removeEntry c d userHashID
                         in (False, tm, c', d'))
                    | None \<Rightarrow> (False, tm, c, d))
               | RefreshFailed \<Rightarrow> (False, tm, c, d))
         else if \<not> truthy_str (access_token cr) \<and> \<not> truthy_str (refresh_token cr)
         then (False, tm, c, d)
         else (True, tm, c, d))"

section \<open>UserManager (Gmail server): credential files\<close>

definition getCredentialsPath :: "string \<Rightarrow> string \<Rightarrow> string" where
  "getCredentialsPath CONFIG_DIR gmailHashID =
     path_join CONFIG_DIR (''.'' @ gmailHashID @ ''-gcp-saved-tokens.json'')"

text \<open>
  The first half of \<^verbatim>\<open>loadUserCredentials\<close>: the path that is read (\<^verbatim>\<open>finalCredPath\<close>), or
  \<open>None\<close> where the method returns \<^verbatim>\<open>null\<close> before reading.
\<close>

definition finalCredPath :: "disk \<Rightarrow> string \<Rightarrow> string \<Rightarrow> string option" where
  "finalCredPath d CONFIG_DIR gmailHashID =
     (let credPath = getCredentialsPath CONFIG_DIR gmailHashID;
          credPathWithSave = credPath @ ''.save''
      in if \<not> existsSync d credPath
         then (if existsSync d credPathWithSave then Some credPathWithSave
               else case findCaseInsensitiveTokenFile d CONFIG_DIR gmailHashID of
                      Some caseInsensitiveMatch \<Rightarrow> Some caseInsensitiveMatch
                    | None \<Rightarrow> None)
         else Some credPath)"

text \<open>
  \<^verbatim>\<open>loadUserCredentials\<close>: \<open>None\<close> is the result \<^verbatim>\<open>null\<close>, also when the file holds the JSON
  \<^verbatim>\<open>null\<close>. A failing read or parse is caught and gives \<^verbatim>\<open>null\<close>.
\<close>

definition loadUserCredentials :: "disk \<Rightarrow> string \<Rightarrow> string \<Rightarrow> json option" where
  "loadUserCredentials d CONFIG_DIR gmailHashID =
     (case finalCredPath d CONFIG_DIR gmailHashID of
        None \<Rightarrow> None
      | Some path \<Rightarrow>
          (case readFile d path of
             Inl err \<Rightarrow> None
           | Inr content \<Rightarrow>
               (case JSON_parse content of
                  None \<Rightarrow> None
                | Some JNull \<Rightarrow> None
                | Some parsed \<Rightarrow> Some parsed)))"

text \<open>
  \<^verbatim>\<open>cleanCredentials[key] = value\<close>: an ordinary key is set; the key \<^verbatim>\<open>__proto__\<close> goes to
  the prototype setter and leaves the own properties as they are.
\<close>

definition assign_prop :: "(string \<times> json) list \<Rightarrow> string \<Rightarrow> json \<Rightarrow> (string \<times> json) list" where
  "assign_prop obj key v = (if key = ''__proto__'' then obj else obj_set key v obj)"

text \<open>The \<^verbatim>\<open>forEach\<close> over \<^verbatim>\<open>Object.entries(credentials)\<close>, \<open>clean\<close> being \<^verbatim>\<open>cleanCredentials\<close>.\<close>

fun cleanCredentials :: "tokens \<Rightarrow> (string \<times> json) list \<Rightarrow> (string \<times> json) list" where
  "cleanCredentials [] clean = clean"
| "cleanCredentials ((key, v) # rest) clean =
     (case v of
        None \<Rightarrow> cleanCredentials rest clean
      | Some JNull \<Rightarrow> cleanCredentials rest clean
      | Some x \<Rightarrow> cleanCredentials rest (assign_prop clean key x))"

text \<open>
  \<^verbatim>\<open>saveUserCredentials\<close>. Creating \<^verbatim>\<open>CONFIG_DIR\<close> is taken to succeed; a failing write is
  logged and thrown again.
\<close>

definition saveUserCredentials :: "disk \<Rightarrow> string \<Rightarrow> string \<Rightarrow> tokens \<Rightarrow> errno + disk" where
  "saveUserCredentials d CONFIG_DIR gmailHashID T =
     writeFile d (getCredentialsPath CONFIG_DIR gmailHashID)
       (JSON_stringify (JObj (cleanCredentials T [])))"

section \<open>UserManager.authenticateUser: the callback listener of one flow\<close>







section \<open>AuthServer (Calendar server): the callback listener of one flow\<close>





section \<open>CallbackDispatcher (Calendar server)\<close>

record AuthServerInfo =
  userID :: string
  port :: nat
  timestamp :: int

text \<open>
  \<^verbatim>\<open>activeServers\<close>, a \<^verbatim>\<open>Map\<close>, as the list of its entries in insertion order; the keys
  are user identities, strings as the type \<^verbatim>\<open>AuthServerInfo\<close> declares.
\<close>

type_synonym activeServers = "(string \<times> AuthServerInfo) list"

datatype reply =
    MissingStateParameter
  | InvalidStateParameterText
  | NoActiveSession jsval
  | Relayed string
  | AuthenticationFailedText string
  | InternalServerError
  | MissingUserIDOrPort
  | MissingUserID
  | Registered string nat
  | Unregistered string bool

type_synonym http_response = "nat \<times> reply"

text \<open>
  \<^verbatim>\<open>POST /register-auth-server\<close> with the body fields \<^verbatim>\<open>userID\<close> and \<^verbatim>\<open>port\<close> (\<open>None\<close> when
  missing); an empty identity and the port 0 are falsy.
\<close>

definition register_auth_server ::
  "int \<Rightarrow> string option \<Rightarrow> nat option \<Rightarrow> activeServers \<Rightarrow> http_response \<times> activeServers" where
  "register_auth_server now uid prt servers =
     (if \<not> truthy_str uid \<or> prt = None \<or> prt = Some 0
      then ((400, MissingUserIDOrPort), servers)
      else (let authServerInfo = \<lparr>userID = the uid, port = the prt, timestamp = now\<rparr>
            in ((200, Registered (the uid) (the prt)),
                obj_set (the uid) authServerInfo servers)))"

definition unregister_auth_server ::
  "string option \<Rightarrow> activeServers \<Rightarrow> http_response \<times> activeServers" where
  "unregister_auth_server uid servers =
     (if \<not> truthy_str uid then ((400, MissingUserID), servers)
      else ((200, Unregistered (the uid) (map_of servers (the uid) \<noteq> None)),
            obj_delete (the uid) servers))"

text \<open>
  The answer of the loopback request to the registered port: the request itself throws,
  or a response arrives with its status, status text and body (\<open>None\<close> when reading the
  body throws).
\<close>

datatype fetch_result = FetchThrows | Fetched nat string "string option"

definition response_ok :: "nat \<Rightarrow> bool" where
  "response_ok st = (200 \<le> st \<and> st \<le> 299)"

text \<open>\<^verbatim>\<open>activeServers.get(userID)\<close> for whatever \<^verbatim>\<open>stateData.userID\<close> is.\<close>

fun servers_get :: "activeServers \<Rightarrow> jsval \<Rightarrow> AuthServerInfo option" where
  "servers_get servers (Json (JStr u)) = map_of servers u"
| "servers_get servers v = None"

fun servers_delete :: "jsval \<Rightarrow> activeServers \<Rightarrow> activeServers" where
  "servers_delete (Json (JStr u)) servers = obj_delete u servers"
| "servers_delete v servers = servers"

text \<open>\<^verbatim>\<open>GET /oauth2callback\<close>; \<open>fetch\<close> gives the downstream answer for a port.\<close>

definition oauth2callback ::
  "(nat \<Rightarrow> fetch_result) \<Rightarrow> jtext option \<Rightarrow> activeServers \<Rightarrow> http_response \<times> activeServers" where
  "oauth2callback fetch state servers =
     (if \<not> truthy_text state then ((400, MissingStateParameter), servers)
      else case JSON_parse (the state) of
             None \<Rightarrow> ((400, InvalidStateParameterText), servers)
           | Some stateData \<Rightarrow>
               (case get_prop stateData ''userID'' of
                  None \<Rightarrow> ((400, InvalidStateParameterText), servers)
                | Some uid \<Rightarrow>
                    (case servers_get servers uid of
                       None \<Rightarrow> ((404, NoActiveSession uid), servers)
                     | Some authServer \<Rightarrow>
                         (case fetch (port authServer) of
                            FetchThrows \<Rightarrow> ((500, InternalServerError), servers)
                          | Fetched st statusText body \<Rightarrow>
                              if response_ok st
                              then (case body of
                                      None \<Rightarrow> ((500, InternalServerError), servers)
                                    | Some content \<Rightarrow>
                                        ((st, Relayed content), servers_delete uid servers))
                              else ((st, AuthenticationFailedText statusText), servers)))))"

text \<open>The periodic sweep: entries older than 30 minutes are deleted.\<close>

definition cleanup_sweep :: "int \<Rightarrow> activeServers \<Rightarrow> activeServers" where
  "cleanup_sweep now servers =
     filter (\<lambda>(u, info). \<not> (now - timestamp info > 30 * 60 * 1000)) servers"

text \<open>The routing tables the dispatcher can be in: it starts empty and only its routes
  and its sweep change it.\<close>

inductive reachable :: "activeServers \<Rightarrow> bool" where
  start: "reachable []"
| register: "reachable servers \<Longrightarrow> reachable (snd (register_auth_server now uid prt servers))"
| unregister: "reachable servers \<Longrightarrow> reachable (snd (unregister_auth_server uid servers))"
| callback: "reachable servers \<Longrightarrow> reachable (snd (oauth2callback fetch state servers))"
| sweep: "reachable servers \<Longrightarrow> reachable (cleanup_sweep now servers)"

text \<open>The number of registrations of an identity.\<close>

definition registrations :: "string \<Rightarrow> activeServers \<Rightarrow> nat" where
  "registrations u servers = length (filter (\<lambda>(k, info). k = u) servers)"

section \<open>Transport selection (shouldUseSSE)\<close>

text \<open>
  The classifier runs on the raw \<^verbatim>\<open>arguments\<close> of the JSON-RPC request, before any schema
  has validated them; the parameter is typed \<^verbatim>\<open>any\<close> and the call sites pass
  \<^verbatim>\<open>arguments || {}\<close>. The arguments and each of their fields can therefore be any JSON
  value, and the analyzers are modelled on every JSON value, with the operators of the
  runtime as they act on it.
\<close>

datatype complexity = Simple | Complex

record request_headers =
  hdr_accept :: "string option"
  hdr_x_prefer_streaming :: "string option"

text \<open>\<^verbatim>\<open>x?.k\<close>: \<^verbatim>\<open>undefined\<close> also where \<open>x\<close> is \<^verbatim>\<open>null\<close>.\<close>

definition opt_prop :: "json \<Rightarrow> string \<Rightarrow> jsval" where
  "opt_prop j k = (case get_prop j k of None \<Rightarrow> Undefined | Some v \<Rightarrow> v)"

text \<open>\<^verbatim>\<open>v || dflt\<close>\<close>

definition or_else :: "jsval \<Rightarrow> jsval \<Rightarrow> jsval" where
  "or_else v dflt = (if truthy v then v else dflt)"

text \<open>
  \<^verbatim>\<open>v.length\<close>, and \<^verbatim>\<open>v?.length\<close> where \<open>v\<close> may be \<^verbatim>\<open>undefined\<close> or \<^verbatim>\<open>null\<close> (the analyzers read
  the length of such a value through \<^verbatim>\<open>?.\<close> only). A string has the number of its
  characters and an array the number of its elements; an object has what its own field
  \<^verbatim>\<open>length\<close> holds, if it has one; a number or a boolean has none. The built-in is
  \<^verbatim>\<open>Array.prototype.entries\<close>, a function of no parameters.
\<close>

fun js_length :: "jsval \<Rightarrow> jsval" where
  "js_length (Json (JStr s)) = Json (JNum (int (length s)))"
| "js_length (Json (JArr xs)) = Json (JNum (int (length xs)))"
| "js_length (Json (JObj kvs)) =
     (case map_of kvs ''length'' of Some v \<Rightarrow> Json v | None \<Rightarrow> Undefined)"
| "js_length (Json (JNum n)) = Undefined"
| "js_length (Json (JBool b)) = Undefined"
| "js_length (Json JNull) = Undefined"
| "js_length Undefined = Undefined"
| "js_length Builtin = Json (JNum 0)"

text \<open>
  \<^verbatim>\<open>ToNumber\<close> of a value that is \<^verbatim>\<open>undefined\<close>, \<^verbatim>\<open>null\<close>, a boolean or a number. A string, an
  array or an object is converted through the runtime's grammar of numeric strings,
  which is not modelled: \<open>None\<close>.
\<close>

datatype jsnumber = NaN | Finite int

fun ToNumber :: "jsval \<Rightarrow> jsnumber option" where
  "ToNumber Undefined = Some NaN"
| "ToNumber (Json JNull) = Some (Finite 0)"
| "ToNumber (Json (JBool b)) = Some (Finite (if b then 1 else 0))"
| "ToNumber (Json (JNum n)) = Some (Finite n)"
| "ToNumber (Json (JStr s)) = None"
| "ToNumber (Json (JArr xs)) = None"
| "ToNumber (Json (JObj kvs)) = None"
| "ToNumber Builtin = None"

fun add_number :: "jsnumber \<Rightarrow> jsnumber \<Rightarrow> jsnumber" where
  "add_number (Finite a) (Finite b) = Finite (a + b)"
| "add_number x y = NaN"

text \<open>
  \<^verbatim>\<open>v1 + ... + vk\<close> where no operand is a string, an array or an object, so that \<^verbatim>\<open>+\<close> is
  the addition of numbers; \<open>None\<close> where an operand is one of these and \<^verbatim>\<open>+\<close> concatenates.
\<close>

fun js_sum :: "jsval list \<Rightarrow> jsnumber option" where
  "js_sum [] = Some (Finite 0)"
| "js_sum (v # vs) =
     (case ToNumber v of
        None \<Rightarrow> None
      | Some a \<Rightarrow> (case js_sum vs of None \<Rightarrow> None | Some b \<Rightarrow> Some (add_number a b)))"

text \<open>
  \<^verbatim>\<open>v1 + ... + vk > n\<close> for a number literal \<open>n\<close>; a NaN compares false. Where an operand is
  a string, an array or an object the comparison is the runtime's, with its conversion
  of strings to numbers: \<open>coerced_gt\<close> is that function.
\<close>

definition js_gt :: "(jsval list \<Rightarrow> int \<Rightarrow> bool) \<Rightarrow> jsval list \<Rightarrow> int \<Rightarrow> bool" where
  "js_gt coerced_gt vs n =
     (case js_sum vs of
        Some (Finite m) \<Rightarrow> m > n
      | Some NaN \<Rightarrow> False
      | None \<Rightarrow> coerced_gt vs n)"

text \<open>
  \<^verbatim>\<open>query.includes(x)\<close> for a \<open>query\<close> that is not \<^verbatim>\<open>undefined\<close> or \<^verbatim>\<open>null\<close>: the substring
  test of a string, the membership test of an array; any other value has no such method
  and the call throws a TypeError (\<open>None\<close>).
\<close>

fun js_includes :: "jsval \<Rightarrow> string \<Rightarrow> bool option" where
  "js_includes (Json (JStr s)) x = Some (str_includes s x)"
| "js_includes (Json (JArr xs)) x = Some (JStr x \<in> set xs)"
| "js_includes v x = None"

text \<open>The length of \<^verbatim>\<open>Array.isArray(args?.k) ? args.k : []\<close>.\<close>

definition arr_len :: "json \<Rightarrow> string \<Rightarrow> nat" where
  "arr_len j k = (case get_prop j k of Some (Json (JArr xs)) \<Rightarrow> length xs | _ \<Rightarrow> 0)"

text \<open>\<^verbatim>\<open>Object.keys(v).length\<close> for a truthy \<open>v\<close>.\<close>

fun keys_count :: "jsval \<Rightarrow> nat" where
  "keys_count (Json (JObj kvs)) = length kvs"
| "keys_count (Json (JArr xs)) = length xs"
| "keys_count (Json (JStr s)) = length s"
| "keys_count v = 0"

text \<open>\<^verbatim>\<open>v.k\<close> for a truthy \<open>v\<close> and a name \<open>k\<close> that no prototype defines.\<close>

fun js_field :: "jsval \<Rightarrow> string \<Rightarrow> jsval" where
  "js_field (Json j) k = opt_prop j k"
| "js_field v k = Undefined"

text \<open>The first block of both classifiers: what the request headers ask for, if anything.\<close>

definition client_preference :: "request_headers option \<Rightarrow> bool option" where
  "client_preference req =
     (case req of
        None \<Rightarrow> None
      | Some headers \<Rightarrow>
          if (case hdr_accept headers of
                Some accept \<Rightarrow> str_includes accept ''text/event-stream'' | None \<Rightarrow> False)
          then Some True
          else if hdr_x_prefer_streaming headers = Some ''true'' then Some True
          else if hdr_x_prefer_streaming headers = Some ''false'' then Some False
          else None)"

subsection \<open>Gmail server\<close>

definition gmail_simple :: "string list" where
  "gmail_simple =
     [''authenticate_user'', ''read_email'', ''get_cache_stats'',
      ''create_label'', ''update_label'', ''delete_label'',
      ''get_or_create_label'', ''modify_email'', ''delete_email'']"

definition gmail_complex :: "string list" where
  "gmail_complex = []"

definition gmail_variable :: "string list" where
  "gmail_variable =
     [''send_email'', ''draft_email'', ''search_emails'',
      ''list_email_labels'', ''batch_modify_emails'', ''batch_delete_emails'']"

definition analyzeSendEmail :: "(jsval list \<Rightarrow> int \<Rightarrow> bool) \<Rightarrow> json \<Rightarrow> complexity" where
  "analyzeSendEmail coerced_gt args =
     (let bodyLength =
            [js_length (or_else (opt_prop args ''body'') (Json (JStr ''''))),
             js_length (or_else (opt_prop args ''htmlBody'') (Json (JStr '''')))];
          recipients =
            [js_length (or_else (opt_prop args ''to'') (Json (JArr []))),
             js_length (or_else (opt_prop args ''cc'') (Json (JArr []))),
             js_length (or_else (opt_prop args ''bcc'') (Json (JArr [])))]
      in if js_gt coerced_gt bodyLength 50000 then Complex
         else if js_gt coerced_gt recipients 20 then Complex
         else if truthy (opt_prop args ''htmlBody'') \<and> js_gt coerced_gt bodyLength 20000
         then Complex
         else Simple)"

text \<open>\<open>None\<close> is the TypeError of \<^verbatim>\<open>query.includes\<close>.\<close>

definition analyzeSearchEmails ::
  "(jsval list \<Rightarrow> int \<Rightarrow> bool) \<Rightarrow> json \<Rightarrow> complexity option" where
  "analyzeSearchEmails coerced_gt args =
     (let maxResults = or_else (opt_prop args ''maxResults'') (Json (JNum 10));
          query = or_else (opt_prop args ''query'') (Json (JStr ''''))
      in if js_gt coerced_gt [maxResults] 100 then Some Complex
         else if js_gt coerced_gt [js_length query] 200 then Some Complex
         else case js_includes query ''has:attachment'' of
                None \<Rightarrow> None
              | Some attachment \<Rightarrow>
                  if attachment \<and> js_gt coerced_gt [maxResults] 50 then Some Complex
                  else Some Simple)"

definition analyzeBatchModifyEmails :: "json \<Rightarrow> complexity" where
  "analyzeBatchModifyEmails args =
     (let messageIds = arr_len args ''messageIds''
      in if messageIds > 100 then Complex
         else if messageIds > 50 then Complex
         else Simple)"

definition analyzeBatchDeleteEmails :: "json \<Rightarrow> complexity" where
  "analyzeBatchDeleteEmails args =
     (let messageIds = arr_len args ''messageIds''
      in if messageIds > 50 then Complex
         else if messageIds > 25 then Complex
         else Simple)"

text \<open>The \<^verbatim>\<open>switch\<close> of the Gmail classifier; \<open>None\<close> when the analyzer throws.\<close>

definition gmail_analyze ::
  "(jsval list \<Rightarrow> int \<Rightarrow> bool) \<Rightarrow> string \<Rightarrow> json \<Rightarrow> complexity option" where
  "gmail_analyze coerced_gt toolName args =
     (if toolName = ''send_email'' \<or> toolName = ''draft_email''
      then Some (analyzeSendEmail coerced_gt args)
      else if toolName = ''search_emails'' then analyzeSearchEmails coerced_gt args
      else if toolName = ''batch_modify_emails'' then Some (analyzeBatchModifyEmails args)
      else if toolName = ''batch_delete_emails'' then Some (analyzeBatchDeleteEmails args)
      else Some Simple)"

text \<open>\<^verbatim>\<open>shouldUseSSE\<close> of the Gmail server; \<open>None\<close> when the call throws.\<close>

definition gmail_shouldUseSSE ::
  "(jsval list \<Rightarrow> int \<Rightarrow> bool) \<Rightarrow> string \<Rightarrow> json \<Rightarrow> request_headers option \<Rightarrow> bool option" where
  "gmail_shouldUseSSE coerced_gt toolName args req =
     (case client_preference req of
        Some wanted \<Rightarrow> Some wanted
      | None \<Rightarrow>
          if toolName \<in> set gmail_simple then Some False
          else if toolName \<in> set gmail_complex then Some True
          else if toolName \<in> set gmail_variable
          then map_option (\<lambda>c. c = Complex) (gmail_analyze coerced_gt toolName args)
          else Some False)"

subsection \<open>Calendar server\<close>

definition calendar_simple :: "string list" where
  "calendar_simple =
     [''auth_status'', ''get_calendar_info'', ''get_single_event'',
      ''get_calendar_list'', ''get_event_attendees'']"

definition calendar_complex :: "string list" where
  "calendar_complex =
     [''sync_all_calendars'', ''backup_calendar_data'', ''import_calendar_file'',
      ''generate_calendar_report'', ''bulk_calendar_migration'']"

definition calendar_variable :: "string list" where
  "calendar_variable =
     [''list_events'', ''create_events'', ''search_events'',
      ''update_events'', ''delete_events'']"

text \<open>
  \<^verbatim>\<open>new Date(v).getTime()\<close> in milliseconds for a JSON value \<open>v\<close>, \<open>None\<close> for the NaN of an
  invalid date. A number is the time itself if it is within the range of a date, a
  boolean is 0 or 1; a string is parsed by the runtime, an array or an object after its
  conversion to a string: \<open>Date_parse\<close> is that reading.
\<close>

definition getTime :: "(json \<Rightarrow> int option) \<Rightarrow> json \<Rightarrow> int option" where
  "getTime Date_parse v =
     (case v of
        JNum n \<Rightarrow> if \<bar>n\<bar> \<le> 8640000000000000 then Some n else None
      | JBool b \<Rightarrow> Some (if b then 1 else 0)
      | JNull \<Rightarrow> Some 0
      | _ \<Rightarrow> Date_parse v)"

text \<open>
  \<^verbatim>\<open>args?.k ? new Date(args.k) : new Date()\<close> followed by \<^verbatim>\<open>getTime()\<close>; \<open>now\<close> is the clock.
\<close>

definition date_or_now :: "(json \<Rightarrow> int option) \<Rightarrow> int \<Rightarrow> json \<Rightarrow> string \<Rightarrow> int option" where
  "date_or_now Date_parse now args k =
     (case opt_prop args k of
        Json v \<Rightarrow> if truthy (Json v) then getTime Date_parse v else Some now
      | Undefined \<Rightarrow> Some now
      | Builtin \<Rightarrow> None)"

text \<open>\<^verbatim>\<open>dayRange > 365\<close>, the range being the distance in days; a NaN compares false.\<close>

definition analyzeListEvents ::
  "(jsval list \<Rightarrow> int \<Rightarrow> bool) \<Rightarrow> (json \<Rightarrow> int option) \<Rightarrow> int \<Rightarrow> json \<Rightarrow> complexity" where
  "analyzeListEvents coerced_gt Date_parse now args =
     (let maxResults = or_else (opt_prop args ''maxResults'') (Json (JNum 10));
          timeMin = date_or_now Date_parse now args ''timeMin'';
          timeMax = date_or_now Date_parse now args ''timeMax''
      in if js_gt coerced_gt [maxResults] 100 then Complex
         else if (case (timeMin, timeMax) of
                    (Some t0, Some t1) \<Rightarrow> \<bar>t1 - t0\<bar> > 365 * (1000 * 60 * 60 * 24)
                  | _ \<Rightarrow> False) then Complex
         else if js_gt coerced_gt [js_length (opt_prop args ''searchQuery'')] 50 then Complex
         else if js_gt coerced_gt [js_length (opt_prop args ''calendarIds'')] 5 then Complex
         else Simple)"

text \<open>\<^verbatim>\<open>events.some(e => test(e))\<close> where the test reads a property of \<open>e\<close> and so throws
  a TypeError (\<open>None\<close>) on a \<^verbatim>\<open>null\<close> element it reaches.\<close>

fun some_event :: "(json \<Rightarrow> bool option) \<Rightarrow> json list \<Rightarrow> bool option" where
  "some_event test [] = Some False"
| "some_event test (e # es) =
     (case test e of
        None \<Rightarrow> None
      | Some True \<Rightarrow> Some True
      | Some False \<Rightarrow> some_event test es)"

definition analyzeCreateEvents ::
  "(jsval list \<Rightarrow> int \<Rightarrow> bool) \<Rightarrow> json \<Rightarrow> complexity option" where
  "analyzeCreateEvents coerced_gt args =
     (let events = (case get_prop args ''events'' of
                      Some (Json (JArr xs)) \<Rightarrow> xs
                    | _ \<Rightarrow> [args])
      in if length events > 10 then Some Complex
         else case some_event (\<lambda>e. map_option truthy (get_prop e ''recurrence'')) events of
                None \<Rightarrow> None
              | Some True \<Rightarrow> Some Complex
              | Some False \<Rightarrow>
         (case some_event
                 (\<lambda>e. map_option (\<lambda>v. js_gt coerced_gt [js_length v] 10) (get_prop e ''attendees''))
                 events of
                None \<Rightarrow> None
              | Some True \<Rightarrow> Some Complex
              | Some False \<Rightarrow>
         (case some_event
                 (\<lambda>e. map_option (\<lambda>v. js_gt coerced_gt [js_length v] 0) (get_prop e ''attachments''))
                 events of
                None \<Rightarrow> None
              | Some True \<Rightarrow> Some Complex
              | Some False \<Rightarrow> Some Simple)))"

text \<open>\<open>None\<close> is the TypeError of \<^verbatim>\<open>query.includes\<close>, which is the first statement to
  use the query.\<close>

definition analyzeSearchEvents ::
  "(jsval list \<Rightarrow> int \<Rightarrow> bool) \<Rightarrow> json \<Rightarrow> complexity option" where
  "analyzeSearchEvents coerced_gt args =
     (let query = or_else (opt_prop args ''query'') (Json (JStr ''''));
          filters = or_else (opt_prop args ''filters'') (Json (JObj []));
          maxResults = or_else (opt_prop args ''maxResults'') (Json (JNum 25))
      in case js_includes query ''*'' of
           None \<Rightarrow> None
         | Some star \<Rightarrow>
             if star \<or> js_includes query ''?'' = Some True then Some Complex
             else if js_gt coerced_gt [js_length query] 100 then Some Complex
             else if js_gt coerced_gt [maxResults] 100 then Some Complex
             else if keys_count filters > 5 then Some Complex
             else if truthy (js_field filters ''dateRangeIntersection'')
                     \<or> truthy (js_field filters ''attendeeIntersection'') then Some Complex
             else if truthy (js_field filters ''customFields'')
                     \<or> truthy (js_field filters ''metadata'') then Some Complex
             else Some Simple)"

text \<open>\<^verbatim>\<open>Array.isArray(args?.eventIds) ? args.eventIds : [args?.eventId].filter(Boolean)\<close>,
  its length.\<close>

definition eventIds_length :: "json \<Rightarrow> nat" where
  "eventIds_length args =
     (case get_prop args ''eventIds'' of
        Some (Json (JArr xs)) \<Rightarrow> length xs
      | _ \<Rightarrow> if truthy (opt_prop args ''eventId'') then 1 else 0)"

definition analyzeUpdateEvents :: "(jsval list \<Rightarrow> int \<Rightarrow> bool) \<Rightarrow> json \<Rightarrow> complexity" where
  "analyzeUpdateEvents coerced_gt args =
     (let updates = or_else (opt_prop args ''updates'') (Json (JObj []))
      in if eventIds_length args > 10 then Complex
         else if truthy (js_field updates ''recurrence'')
                 \<or> js_gt coerced_gt [js_length (js_field updates ''attendees'')] 5 then Complex
         else if truthy (js_field updates ''moveToCalendar'')
                 \<or> truthy (js_field updates ''duplicateToCalendar'') then Complex
         else if truthy (js_field updates ''attachments'')
                 \<or> truthy (js_field updates ''conferenceData'') then Complex
         else if keys_count updates > 5 then Complex
         else Simple)"

definition analyzeDeleteEvents :: "json \<Rightarrow> complexity" where
  "analyzeDeleteEvents args =
     (if eventIds_length args > 15 then Complex
      else if opt_prop args ''deleteRecurring'' = Json (JBool True) then Complex
      else if opt_prop args ''notifyAttendees'' = Json (JBool True) \<and> eventIds_length args > 5
      then Complex
      else Simple)"

text \<open>The \<^verbatim>\<open>switch\<close> of the Calendar classifier; \<open>None\<close> when the analyzer throws.\<close>

definition calendar_analyze ::
  "(jsval list \<Rightarrow> int \<Rightarrow> bool) \<Rightarrow> (json \<Rightarrow> int option) \<Rightarrow> int \<Rightarrow> string \<Rightarrow> json
     \<Rightarrow> complexity option" where
  "calendar_analyze coerced_gt Date_parse now toolName args =
     (if toolName = ''list_events'' then Some (analyzeListEvents coerced_gt Date_parse now args)
      else if toolName = ''create_events'' then analyzeCreateEvents coerced_gt args
      else if toolName = ''search_events'' then analyzeSearchEvents coerced_gt args
      else if toolName = ''update_events'' then Some (analyzeUpdateEvents coerced_gt args)
      else if toolName = ''delete_events'' then Some (analyzeDeleteEvents args)
      else Some Simple)"

text \<open>\<^verbatim>\<open>shouldUseSSE\<close> of the Calendar server; \<open>None\<close> when the call throws.\<close>

definition calendar_shouldUseSSE ::
  "(jsval list \<Rightarrow> int \<Rightarrow> bool) \<Rightarrow> (json \<Rightarrow> int option) \<Rightarrow> int \<Rightarrow> string \<Rightarrow> json
     \<Rightarrow> request_headers option \<Rightarrow> bool option" where
  "calendar_shouldUseSSE coerced_gt Date_parse now toolName args req =
     (case client_preference req of
        Some wanted \<Rightarrow> Some wanted
      | None \<Rightarrow>
          if toolName \<in> set calendar_simple then Some False
          else if toolName \<in> set calendar_complex then Some True
          else if toolName \<in> set calendar_variable
          then map_option (\<lambda>c. c = Complex)
                 (calendar_analyze coerced_gt Date_parse now toolName args)
          else Some False)"

section \<open>The specification's reading of the operations\<close>

text \<open>
  The fuzzy scan in the words of the specification. A token file is a file whose name
  contains \<^verbatim>\<open>gcp-saved-tokens\<close>; the file stored for an identity is named by a dot, the
  identity and \<^verbatim>\<open>-gcp-saved-tokens.json\<close>. A name embeds a file id when it is a dot, the
  id, which is not empty, and \<^verbatim>\<open>-gcp-saved-tokens\<close>, followed by anything; the file id of
  a name is the longest id it embeds, so that the name stored for an identity gives back
  the identity. A token file is a candidate for a search prefix when, compared in lower
  case, its file id is a prefix of the search prefix or the search prefix is a prefix of
  the file id. The identity is lowercased and the prefix lengths \<open>len\<close>,
  \<open>max(6, len - 4)\<close> and 3 are tried in this order; the first candidate of the first
  length that has one is the result.
\<close>

definition is_token_file :: "string \<Rightarrow> bool" where
  "is_token_file name = sublist ''gcp-saved-tokens'' name"

definition embeds_id :: "string \<Rightarrow> string \<Rightarrow> bool" where
  "embeds_id name fid = (fid \<noteq> [] \<and> prefix (''.'' @ fid @ ''-gcp-saved-tokens'') name)"

text \<open>The ids a name can embed are prefixes of what follows its first character; they
  are tried from the longest on.\<close>

definition embedded_file_id :: "string \<Rightarrow> string option" where
  "embedded_file_id name = find (embeds_id name) (rev (prefixes (tl name)))"

definition is_fuzzy_match :: "string \<Rightarrow> string \<Rightarrow> bool" where
  "is_fuzzy_match searchPrefix file =
     (is_token_file file \<and>
      (case embedded_file_id (toLowerCase file) of
         Some fid \<Rightarrow> prefix searchPrefix fid \<or> prefix fid searchPrefix
       | None \<Rightarrow> False))"

definition fuzzy_scan_spec :: "string \<Rightarrow> string list \<Rightarrow> string option" where
  "fuzzy_scan_spec s listing =
     (let t = toLowerCase s
      in case find (is_fuzzy_match t) listing of
           Some file \<Rightarrow> Some file
         | None \<Rightarrow>
             (case find (is_fuzzy_match (take (max 6 (length t - 4)) t)) listing of
                Some file \<Rightarrow> Some file
              | None \<Rightarrow> find (is_fuzzy_match (take 3 t)) listing))"

text \<open>A name without a line break: neither a line feed nor a carriage return.\<close>

definition one_line :: "string \<Rightarrow> bool" where
  "one_line name = (CHR 0x0A \<notin> set name \<and> CHR 0x0D \<notin> set name)"

text \<open>
  A token object with all its null and undefined fields removed, which is what the
  specification expects a load to return after a save; and with its undefined fields
  removed only.
\<close>

definition without_nullish :: "tokens \<Rightarrow> (string \<times> json) list" where
  "without_nullish T =
     List.map_filter
       (\<lambda>(k, v). case v of None \<Rightarrow> None | Some JNull \<Rightarrow> None | Some x \<Rightarrow> Some (k, x)) T"

definition without_undefined :: "tokens \<Rightarrow> (string \<times> json) list" where
  "without_undefined T = List.map_filter (\<lambda>(k, v). map_option (Pair k) v) T"

text \<open>A token object without the field of a given name.\<close>

definition without_field :: "string \<Rightarrow> tokens \<Rightarrow> tokens" where
  "without_field name T = filter (\<lambda>(k, v). k \<noteq> name) T"

text \<open>
  The header conditions in the words of the specification: a request asks for streaming
  when its \<^verbatim>\<open>Accept\<close> header names \<^verbatim>\<open>text/event-stream\<close> or its \<^verbatim>\<open>x-prefer-streaming\<close>
  header is \<^verbatim>\<open>true\<close>; it rejects streaming when its \<^verbatim>\<open>x-prefer-streaming\<close> header is
  \<^verbatim>\<open>false\<close>. One request can do both.
\<close>

definition requests_streaming :: "request_headers option \<Rightarrow> bool" where
  "requests_streaming req =
     (case req of
        None \<Rightarrow> False
      | Some headers \<Rightarrow>
          (case hdr_accept headers of
             Some accept \<Rightarrow> sublist ''text/event-stream'' accept
           | None \<Rightarrow> False)
          \<or> hdr_x_prefer_streaming headers = Some ''true'')"

definition rejects_streaming :: "request_headers option \<Rightarrow> bool" where
  "rejects_streaming req =
     (case req of
        None \<Rightarrow> False
      | Some headers \<Rightarrow> hdr_x_prefer_streaming headers = Some ''false'')"

text \<open>
  A well-formed table in the words of the specification's persisted state layout,
  \<^verbatim>\<open>{version, entries: {identity: {originalUserHashID, actualTokenFilename, createdAt,
  lastAccessed}}}\<close>: an object whose version is a string and whose entries are an object,
  each value of which is an object with the two names as strings and the two times as
  numbers.
\<close>

definition is_string_field :: "(string \<times> json) list \<Rightarrow> string \<Rightarrow> bool" where
  "is_string_field kvs k = (case map_of kvs k of Some (JStr s) \<Rightarrow> True | _ \<Rightarrow> False)"

definition is_number_field :: "(string \<times> json) list \<Rightarrow> string \<Rightarrow> bool" where
  "is_number_field kvs k = (case map_of kvs k of Some (JNum n) \<Rightarrow> True | _ \<Rightarrow> False)"

fun well_formed_entry :: "json \<Rightarrow> bool" where
  "well_formed_entry (JObj kvs) =
     (is_string_field kvs ''originalUserHashID'' \<and> is_string_field kvs ''actualTokenFilename''
      \<and> is_number_field kvs ''createdAt'' \<and> is_number_field kvs ''lastAccessed'')"
| "well_formed_entry j = False"

fun well_formed_table :: "json \<Rightarrow> bool" where
  "well_formed_table (JObj kvs) =
     (is_string_field kvs ''version''
      \<and> (case map_of kvs ''entries'' of
            Some (JObj es) \<Rightarrow> list_all (\<lambda>(identity, e). well_formed_entry e) es
          | _ \<Rightarrow> False))"
| "well_formed_table j = False"

section \<open>The string operations and the notions of the list library\<close>

lemma startsWith_prefix: "startsWith s p \<longleftrightarrow> prefix p s"
  unfolding startsWith_def prefix_def
  by (metis append_eq_conv_conj)

lemma str_includes_sublist: "str_includes s sub \<longleftrightarrow> sublist sub s"
  by (induction s) (simp_all add: sublist_Cons_right startsWith_prefix)

section \<open>Expiry of a credential record\<close>

text \<open>
  Claim C6, as the code has it. A record is expired exactly when its \<^verbatim>\<open>expiry_date\<close> is
  present (and not 0) and lies within the five-minute buffer of the current time, or
  when it has no \<^verbatim>\<open>expiry_date\<close> (or the date 0) and no access token. The access token
  is looked at only where the expiry date is missing.
\<close>

theorem isExpired_by_expiry_or_missing_token:
  "isExpired now c \<longleftrightarrow>
     (\<exists>e. expiry_date c = Some e \<and> e \<noteq> 0 \<and> now \<ge> e - 300000) \<or>
     ((expiry_date c = None \<or> expiry_date c = Some 0) \<and> \<not> truthy_str (access_token c))"
  by (cases "expiry_date c") (auto simp: isExpired_def)

theorem isExpired_by_expiry_or_missing_token_witness:
  "isExpired 1000 \<lparr>access_token = Some ''a'', refresh_token = None, expiry_date = Some 300500\<rparr>
   \<and> isExpired 0 \<lparr>access_token = None, refresh_token = None, expiry_date = None\<rparr>
   \<and> \<not> isExpired 0 \<lparr>access_token = Some ''a'', refresh_token = None, expiry_date = Some 0\<rparr>"
  using
    isExpired_by_expiry_or_missing_token
      [of 1000 "\<lparr>access_token = Some ''a'', refresh_token = None, expiry_date = Some 300500\<rparr>"]
    isExpired_by_expiry_or_missing_token
      [of 0 "\<lparr>access_token = None, refresh_token = None, expiry_date = None\<rparr>"]
    isExpired_by_expiry_or_missing_token
      [of 0 "\<lparr>access_token = Some ''a'', refresh_token = None, expiry_date = Some 0\<rparr>"]
  by simp

text \<open>
  The claim as stated fails: a record without an access token whose expiry date is an
  hour away is not expired at time 0.
\<close>

theorem isExpired_no_access_token_counterexample:
  "access_token \<lparr>access_token = None, refresh_token = Some ''r'', expiry_date = Some 3600000\<rparr>
     = None
   \<and> \<not> isExpired 0 \<lparr>access_token = None, refresh_token = Some ''r'', expiry_date = Some 3600000\<rparr>"
  by (simp add: isExpired_def)

section \<open>Initialising the lookup cache\<close>

lemma loadCache_try_valid:
  "loadCache_try d path = Inr j \<Longrightarrow> cache_structure_ok j = Some True"
  by (auto simp: loadCache_try_def split: sum.splits option.splits bool.splits)

lemma empty_cache_valid: "cache_structure_ok empty_cache = Some True"
  by (simp add: cache_structure_ok_def empty_cache_def)

lemma loadCache_try_cases:
  "loadCache_try d path =
     (case readFile d path of
        Inl err \<Rightarrow> Inl (ReadError err)
      | Inr (Garbage s) \<Rightarrow> Inl SyntaxError
      | Inr (Doc j) \<Rightarrow>
          (case cache_structure_ok j of
             None \<Rightarrow> Inl TypeError
           | Some ok \<Rightarrow> if ok then Inr j else Inl InvalidCacheStructure))"
  by (auto simp: loadCache_try_def split: sum.splits option.splits bool.splits jtext.splits)

lemma empty_cache_well_formed: "well_formed_table empty_cache"
  by (simp add: empty_cache_def is_string_field_def)

text \<open>
  Claim C10, as the code has it. \<^verbatim>\<open>initialize\<close> returns normally for every state of the
  cache file and whatever the cache held before. Whenever loading failed (the file is
  missing or unreadable, is not JSON, or fails the structural check) the cache is reset
  to the empty table, which is well formed; otherwise the cache is the parsed file as it
  is, of which the check has established only that \<^verbatim>\<open>version\<close> and \<^verbatim>\<open>entries\<close> are truthy.
\<close>

theorem initialize_resets_or_keeps_file:
  "\<exists>cache. initialize d path cache0 = Inr cache
     \<and> cache_structure_ok cache = Some True
     \<and> ((\<exists>err. readFile d path = Inl err)
          \<or> (\<exists>s. readFile d path = Inr (Garbage s))
          \<or> (\<exists>j. readFile d path = Inr (Doc j) \<and> cache_structure_ok j \<noteq> Some True)
         \<longrightarrow> cache = empty_cache \<and> well_formed_table cache)
     \<and> (\<forall>j. readFile d path = Inr (Doc j) \<and> cache_structure_ok j = Some True \<longrightarrow> cache = j)"
  by (auto simp: initialize_def loadCache_def loadCache_try_cases empty_cache_valid
                 empty_cache_well_formed
           split: sum.splits option.splits jtext.splits)

theorem initialize_resets_or_keeps_file_witness:
  "initialize \<lparr>fs_files = [], fs_faulty = []\<rparr> ''/app/.userhash-cache.json'' JNull = Inr empty_cache
   \<and> initialize \<lparr>fs_files = [(''/app/.userhash-cache.json'', Garbage ''{'')], fs_faulty = []\<rparr>
        ''/app/.userhash-cache.json'' JNull = Inr empty_cache
   \<and> initialize \<lparr>fs_files = [(''/app/.userhash-cache.json'', Doc (JObj [(''version'', JStr ''1.0.0'')]))],
                  fs_faulty = []\<rparr>
        ''/app/.userhash-cache.json'' JNull = Inr empty_cache
   \<and> initialize \<lparr>fs_files = [(''/app/.userhash-cache.json'',
                     Doc (JObj [(''version'', JStr ''2''), (''entries'', JObj [])]))],
                  fs_faulty = [''/app/.userhash-cache.json'']\<rparr>
        ''/app/.userhash-cache.json'' JNull = Inr empty_cache
   \<and> initialize \<lparr>fs_files = [(''/app/.userhash-cache.json'',
                     Doc (JObj [(''version'', JStr ''2''), (''entries'', JObj [])]))],
                  fs_faulty = []\<rparr>
        ''/app/.userhash-cache.json'' JNull
       = Inr (JObj [(''version'', JStr ''2''), (''entries'', JObj [])])"
  using
    initialize_resets_or_keeps_file [of "\<lparr>fs_files = [], fs_faulty = []\<rparr>" "''/app/.userhash-cache.json''" JNull]
    initialize_resets_or_keeps_file [of "\<lparr>fs_files = [(''/app/.userhash-cache.json'', Garbage ''{'')], fs_faulty = []\<rparr>" "''/app/.userhash-cache.json''" JNull]
    initialize_resets_or_keeps_file [of "\<lparr>fs_files = [(''/app/.userhash-cache.json'', Doc (JObj [(''version'', JStr ''1.0.0'')]))],
                  fs_faulty = []\<rparr>" "''/app/.userhash-cache.json''" JNull]
    initialize_resets_or_keeps_file [of "\<lparr>fs_files = [(''/app/.userhash-cache.json'',
                     Doc (JObj [(''version'', JStr ''2''), (''entries'', JObj [])]))],
                  fs_faulty = [''/app/.userhash-cache.json'']\<rparr>" "''/app/.userhash-cache.json''" JNull]
    initialize_resets_or_keeps_file [of "\<lparr>fs_files = [(''/app/.userhash-cache.json'',
                     Doc (JObj [(''version'', JStr ''2''), (''entries'', JObj [])]))],
                  fs_faulty = []\<rparr>" "''/app/.userhash-cache.json''" JNull]
  by (auto simp: readFile_def cache_structure_ok_def)

text \<open>
  The claim as stated fails: a cache file holding \<^verbatim>\<open>{"version": 2, "entries": 5}\<close> is
  readable, is JSON and passes the structural check, since 2 and 5 are truthy; the cache
  after \<^verbatim>\<open>initialize\<close> is that value, which is no table.
\<close>

theorem initialize_keeps_malformed_table_counterexample:
  "initialize
     \<lparr>fs_files = [(''/app/.userhash-cache.json'',
                    Doc (JObj [(''version'', JNum 2), (''entries'', JNum 5)]))],
      fs_faulty = []\<rparr>
     ''/app/.userhash-cache.json'' empty_cache
   = Inr (JObj [(''version'', JNum 2), (''entries'', JNum 5)])
   \<and> \<not> well_formed_table (JObj [(''version'', JNum 2), (''entries'', JNum 5)])"
  by (simp add: initialize_def loadCache_def loadCache_try_def readFile_def
        cache_structure_ok_def is_string_field_def)

section \<open>State validation of the callback listeners\<close>










section \<open>The routing table of the dispatcher\<close>

lemma map_fst_obj_set:
  "map fst (obj_set k v m) = (if k \<in> set (map fst m) then map fst m else map fst m @ [k])"
  by (induction m) force+

lemma distinct_obj_set:
  "distinct (map fst m) \<Longrightarrow> distinct (map fst (obj_set k v m))"
  by (simp add: map_fst_obj_set)

lemma distinct_obj_delete:
  "distinct (map fst m) \<Longrightarrow> distinct (map fst (obj_delete k m))"
  by (simp add: obj_delete_def distinct_map_filter)

lemma map_of_obj_set: "map_of (obj_set k v m) = (map_of m)(k \<mapsto> v)"
  by (induction m) (auto simp: fun_eq_iff)

lemma map_of_obj_delete: "map_of (obj_delete k m) = (map_of m)(k := None)"
  unfolding obj_delete_def
  by (induction m) (auto simp: fun_eq_iff)

lemma registrations_distinct:
  "distinct (map fst m) \<Longrightarrow> registrations u m = (if u \<in> set (map fst m) then 1 else 0)"
  unfolding registrations_def
  by (induction m) (auto simp: image_iff)

lemma servers_delete_distinct:
  "distinct (map fst m) \<Longrightarrow> distinct (map fst (servers_delete uid m))"
  by (cases "(uid, m)" rule: servers_delete.cases) (simp_all add: distinct_obj_delete)

lemma oauth2callback_table:
  "snd (oauth2callback fetch state m) = m \<or>
   (\<exists>uid. snd (oauth2callback fetch state m) = servers_delete uid m)"
  by (auto simp: oauth2callback_def split: option.splits fetch_result.splits)

lemma reachable_distinct: "reachable m \<Longrightarrow> distinct (map fst m)"
proof (induction rule: reachable.induct)
  case start
  show ?case by simp
next
  case (register servers now uid prt)
  then show ?case by (simp add: register_auth_server_def distinct_obj_set)
next
  case (unregister servers uid)
  then show ?case by (simp add: unregister_auth_server_def distinct_obj_delete)
next
  case (callback servers fetch state)
  then show ?case
    using oauth2callback_table [of fetch state servers]
    by (auto simp: servers_delete_distinct)
next
  case (sweep servers now)
  then show ?case by (simp add: cleanup_sweep_def distinct_map_filter)
qed

text \<open>
  Claim C7. In every routing table the dispatcher can reach, an identity has at most
  one registration; registering an identity (non-empty, with a port other than 0) again
  replaces its entry: afterwards there is exactly one registration for it, holding the
  new port and time, and the other identities are as before.
\<close>

theorem register_supersedes:
  assumes "reachable servers" and "u \<noteq> []" and "p \<noteq> 0"
  shows "(\<forall>v. registrations v servers \<le> 1)
       \<and> (\<exists>servers'. register_auth_server now (Some u) (Some p) servers
                        = ((200, Registered u p), servers')
            \<and> reachable servers'
            \<and> registrations u servers' = 1
            \<and> map_of servers' u = Some \<lparr>userID = u, port = p, timestamp = now\<rparr>
            \<and> (\<forall>v. v \<noteq> u \<longrightarrow> map_of servers' v = map_of servers v)
            \<and> (\<forall>v. registrations v servers' \<le> 1))"
proof -
  let ?info = "\<lparr>userID = u, port = p, timestamp = now\<rparr>"
  let ?servers' = "obj_set u ?info servers"
  have reg: "register_auth_server now (Some u) (Some p) servers = ((200, Registered u p), ?servers')"
    using assms by (simp add: register_auth_server_def)
  have reach: "reachable ?servers'"
    using reachable.register [OF assms(1), of now "Some u" "Some p"] reg by simp
  have d: "distinct (map fst servers)" and d': "distinct (map fst ?servers')"
    using assms(1) reach by (simp_all add: reachable_distinct)
  have one: "registrations u ?servers' = 1"
    using d' by (simp add: registrations_distinct map_fst_obj_set)
  have le: "\<forall>v. registrations v servers \<le> 1" "\<forall>v. registrations v ?servers' \<le> 1"
    using d d' by (simp_all add: registrations_distinct)
  show ?thesis
    using reg reach one le by (simp add: map_of_obj_set)
qed

theorem register_supersedes_witness:
  "register_auth_server 9 (Some ''u1'') (Some 3102)
     (snd (register_auth_server 5 (Some ''u1'') (Some 3101) []))
   = ((200, Registered ''u1'' 3102), [(''u1'', \<lparr>userID = ''u1'', port = 3102, timestamp = 9\<rparr>)])
   \<and> registrations ''u1'' [(''u1'', \<lparr>userID = ''u1'', port = 3102, timestamp = 9\<rparr>)] = 1"
proof -
  have r: "reachable (snd (register_auth_server 5 (Some ''u1'') (Some 3101) []))"
    by (rule reachable.register [OF reachable.start])
  show ?thesis
    using register_supersedes [OF r, of "''u1''" 3102 9]
    by (simp add: register_auth_server_def)
qed

section \<open>Forwarding a callback\<close>

text \<open>
  Claim C9. The dispatcher's callback route changes the routing table in one case only:
  the callback was forwarded, the downstream response had a 2xx status and its body was
  relayed; then the entry of the identity is deleted. For a forwarded callback whose
  downstream response is not 2xx, or whose loopback request throws, an error response is
  sent (the downstream status, or 500) and the table is as it was.
\<close>

theorem oauth2callback_deletes_only_on_success:
  "(snd (oauth2callback fetch state servers) \<noteq> servers \<longrightarrow>
      (\<exists>s stateData u authServer st statusText content.
          state = Some s \<and> JSON_parse s = Some stateData
        \<and> get_prop stateData ''userID'' = Some (Json (JStr u))
        \<and> map_of servers u = Some authServer
        \<and> fetch (port authServer) = Fetched st statusText (Some content)
        \<and> response_ok st
        \<and> oauth2callback fetch state servers = ((st, Relayed content), obj_delete u servers)))
   \<and> (\<forall>s stateData u authServer.
          state = Some s \<and> nonempty_text s \<and> JSON_parse s = Some stateData
        \<and> get_prop stateData ''userID'' = Some (Json (JStr u))
        \<and> map_of servers u = Some authServer
        \<longrightarrow> (case fetch (port authServer) of
               FetchThrows \<Rightarrow>
                 oauth2callback fetch state servers = ((500, InternalServerError), servers)
             | Fetched st statusText body \<Rightarrow>
                 if response_ok st
                 then (\<forall>content. body = Some content \<longrightarrow>
                         oauth2callback fetch state servers
                           = ((st, Relayed content), obj_delete u servers))
                 else oauth2callback fetch state servers
                        = ((st, AuthenticationFailedText statusText), servers)))"
proof (intro conjI allI impI)
  assume changed: "snd (oauth2callback fetch state servers) \<noteq> servers"
  then obtain s where s: "state = Some s" "nonempty_text s"
    by (cases state) (auto simp: oauth2callback_def split: if_splits)
  from changed s obtain stateData where sd: "JSON_parse s = Some stateData"
    by (cases "JSON_parse s") (auto simp: oauth2callback_def)
  from changed s sd obtain uid where uid: "get_prop stateData ''userID'' = Some uid"
    by (cases "get_prop stateData ''userID''") (auto simp: oauth2callback_def)
  from changed s sd uid obtain authServer where a: "servers_get servers uid = Some authServer"
    by (cases "servers_get servers uid") (auto simp: oauth2callback_def)
  then obtain u where u: "uid = Json (JStr u)" "map_of servers u = Some authServer"
    by (auto elim: servers_get.elims)
  from changed s sd uid a obtain st statusText content where
    f: "fetch (port authServer) = Fetched st statusText (Some content)" "response_ok st"
    by (cases "fetch (port authServer)")
       (auto simp: oauth2callback_def split: if_splits option.splits)
  have "oauth2callback fetch state servers = ((st, Relayed content), obj_delete u servers)"
    using s sd uid a u f by (simp add: oauth2callback_def)
  then show "\<exists>s stateData u authServer st statusText content.
          state = Some s \<and> JSON_parse s = Some stateData
        \<and> get_prop stateData ''userID'' = Some (Json (JStr u))
        \<and> map_of servers u = Some authServer
        \<and> fetch (port authServer) = Fetched st statusText (Some content)
        \<and> response_ok st
        \<and> oauth2callback fetch state servers = ((st, Relayed content), obj_delete u servers)"
    using s sd uid u f by blast
next
  fix s stateData u authServer
  assume "state = Some s \<and> nonempty_text s \<and> JSON_parse s = Some stateData
        \<and> get_prop stateData ''userID'' = Some (Json (JStr u))
        \<and> map_of servers u = Some authServer"
  then show "case fetch (port authServer) of
               FetchThrows \<Rightarrow>
                 oauth2callback fetch state servers = ((500, InternalServerError), servers)
             | Fetched st statusText body \<Rightarrow>
                 if response_ok st
                 then (\<forall>content. body = Some content \<longrightarrow>
                         oauth2callback fetch state servers
                           = ((st, Relayed content), obj_delete u servers))
                 else oauth2callback fetch state servers
                        = ((st, AuthenticationFailedText statusText), servers)"
    by (auto simp: oauth2callback_def split: fetch_result.splits)
qed

theorem oauth2callback_deletes_only_on_success_witness:
  "oauth2callback (\<lambda>p. Fetched 400 ''Bad Request'' (Some ''no''))
     (Some (Doc (JObj [(''userID'', JStr ''u1'')])))
     [(''u1'', \<lparr>userID = ''u1'', port = 3101, timestamp = 5\<rparr>)]
   = ((400, AuthenticationFailedText ''Bad Request''),
      [(''u1'', \<lparr>userID = ''u1'', port = 3101, timestamp = 5\<rparr>)])
   \<and> oauth2callback (\<lambda>p. Fetched 200 ''OK'' (Some ''done''))
     (Some (Doc (JObj [(''userID'', JStr ''u1'')])))
     [(''u1'', \<lparr>userID = ''u1'', port = 3101, timestamp = 5\<rparr>)]
   = ((200, Relayed ''done''), [])"
proof -
  let ?j = "JObj [(''userID'', JStr ''u1'')]"
  let ?info = "\<lparr>userID = ''u1'', port = 3101, timestamp = 5\<rparr>"
  have forwarded:
    "Some (Doc ?j) = Some (Doc ?j) \<and> nonempty_text (Doc ?j) \<and> JSON_parse (Doc ?j) = Some ?j
     \<and> get_prop ?j ''userID'' = Some (Json (JStr ''u1''))
     \<and> map_of [(''u1'', ?info)] ''u1'' = Some ?info"
    by simp
  note inst = oauth2callback_deletes_only_on_success [THEN conjunct2, rule_format, OF forwarded]
  show ?thesis
    using inst [of "\<lambda>p. Fetched 400 ''Bad Request'' (Some ''no'')"]
          inst [of "\<lambda>p. Fetched 200 ''OK'' (Some ''done'')"]
    by (simp add: response_ok_def obj_delete_def)
qed

section \<open>A refresh answered with invalid grant\<close>

lemma saveCache_entries: "cache_entries (fst (saveCache c d)) = cache_entries c"
  by (auto simp: saveCache_def split: sum.splits)

lemma saveCache_cacheFilePath: "cacheFilePath (fst (saveCache c d)) = cacheFilePath c"
  by (auto simp: saveCache_def split: sum.splits)

lemma keys_obj_set: "set (map fst (obj_set k v m)) = insert k (set (map fst m))"
  unfolding map_fst_obj_set by auto

lemma existsSync_writeFile:
  "writeFile d p t = Inr d' \<Longrightarrow> existsSync d' q = (q = p \<or> existsSync d q)"
  unfolding writeFile_def existsSync_def
  by (auto simp: keys_obj_set simp del: set_map split: if_splits)

lemma readFile_writeFile_other:
  "writeFile d p t = Inr d' \<Longrightarrow> q \<noteq> p \<Longrightarrow> readFile d' q = readFile d q"
  by (auto simp: writeFile_def readFile_def map_of_obj_set split: if_splits)

lemma readFile_writeFile_same:
  "writeFile d p t = Inr d' \<Longrightarrow> readFile d' p = Inr t"
  by (auto simp: writeFile_def readFile_def map_of_obj_set split: if_splits)

lemma saveCache_exists:
  "existsSync d p \<Longrightarrow> existsSync (snd (saveCache c d)) p"
  by (auto simp: saveCache_def existsSync_writeFile split: sum.splits)

lemma saveCache_readFile:
  "p \<noteq> cacheFilePath c \<Longrightarrow> readFile (snd (saveCache c d)) p = readFile d p"
  by (auto simp: saveCache_def readFile_writeFile_other split: sum.splits)

lemma entry_for_path_key:
  "entry_for_path p es = Some u \<Longrightarrow> map_of es u \<noteq> None"
  by (induction p es rule: entry_for_path.induct) (auto split: if_splits)

text \<open>
  Claim C2, as the code has it. When a refresh is due, a refresh token is present and
  the provider answers \<^verbatim>\<open>invalid_grant\<close>, the call returns false and leaves the manager
  as it was. The credential file is not deleted: if it existed it still exists, with the
  same content. Of the lookup cache, the first entry (in enumeration order) whose
  \<^verbatim>\<open>actualTokenFilename\<close> is the manager's token path is removed, and nothing else; the
  mapping of an identity is therefore absent afterwards when that first entry is its own.
\<close>

theorem invalid_grant_removes_cache_entry_only:
  assumes "isExpired now (creds (credentials tm))"
    and "truthy_str (refresh_token (creds (credentials tm)))"
  shows "\<exists>c' d'. refreshTokensIfNeeded now InvalidGrant tm c d = (False, tm, c', d')
     \<and> (existsSync d (tokenPath tm) \<longrightarrow> existsSync d' (tokenPath tm))
     \<and> (tokenPath tm \<noteq> cacheFilePath c \<longrightarrow> readFile d' (tokenPath tm) = readFile d (tokenPath tm))
     \<and> cache_entries c' =
         (case entry_for_path (tokenPath tm) (cache_entries c) of
            Some u \<Rightarrow> obj_delete u (cache_entries c)
          | None \<Rightarrow> cache_entries c)
     \<and> (\<forall>U. entry_for_path (tokenPath tm) (cache_entries c) = Some U
              \<longrightarrow> map_of (cache_entries c') U = None)"
proof (cases "entry_for_path (tokenPath tm) (cache_entries c)")
  case None
  then show ?thesis
    using assms by (simp add: refreshTokensIfNeeded_def getAllEntries_def)
next
  case (Some u)
  then obtain e where e: "map_of (cache_entries c) u = Some e"
    using entry_for_path_key by fastforce
  let ?c1 = "c\<lparr>cache_entries := obj_delete u (cache_entries c), isDirty := True\<rparr>"
  let ?c' = "fst (saveCache ?c1 d)" and ?d' = "snd (saveCache ?c1 d)"
  have run: "refreshTokensIfNeeded now InvalidGrant tm c d = (False, tm, ?c', ?d')"
    using assms Some e
    by (simp add: refreshTokensIfNeeded_def getAllEntries_def removeEntry_def split_beta)
  have ent: "cache_entries ?c' = obj_delete u (cache_entries c)"
    by (simp add: saveCache_entries)
  have ex: "existsSync d (tokenPath tm) \<longrightarrow> existsSync ?d' (tokenPath tm)"
    by (simp add: saveCache_exists)
  have rd: "tokenPath tm \<noteq> cacheFilePath c \<longrightarrow> readFile ?d' (tokenPath tm) = readFile d (tokenPath tm)"
    by (simp add: saveCache_readFile)
  have gone: "map_of (cache_entries ?c') u = None"
    by (simp add: ent map_of_obj_delete)
  show ?thesis
    using run ent ex rd gone Some
    by (intro exI [of _ ?c'] exI [of _ ?d']) simp
qed


theorem invalid_grant_removes_cache_entry_only_witness:
  "refreshTokensIfNeeded 2000 InvalidGrant
     \<lparr>tokenPath = ''/app/.u1-gcp-saved-tokens.json'',
      credentials = JObj [(''refresh_token'', JStr ''r''), (''expiry_date'', JNum 1000)]\<rparr>
     \<lparr>cacheFilePath = ''/app/.userhash-cache.json'', cache_version = ''1.0.0'',
      cache_entries = [(''u1'', \<lparr>originalUserHashID = ''u1'',
                                 actualTokenFilename = ''/app/.u1-gcp-saved-tokens.json'',
                                 createdAt = 1, lastAccessed = 1\<rparr>)],
      entries_prototype = None,
      Object_prototype_lastAccessed = None, isDirty = False\<rparr>
     \<lparr>fs_files = [(''/app/.u1-gcp-saved-tokens.json'', Doc (JObj [(''refresh_token'', JStr ''r'')]))],
      fs_faulty = []\<rparr>
   = (False,
      \<lparr>tokenPath = ''/app/.u1-gcp-saved-tokens.json'',
       credentials = JObj [(''refresh_token'', JStr ''r''), (''expiry_date'', JNum 1000)]\<rparr>,
      \<lparr>cacheFilePath = ''/app/.userhash-cache.json'', cache_version = ''1.0.0'',
       cache_entries = [], entries_prototype = None,
      Object_prototype_lastAccessed = None, isDirty = False\<rparr>,
      \<lparr>fs_files = [(''/app/.u1-gcp-saved-tokens.json'', Doc (JObj [(''refresh_token'', JStr ''r'')])),
                   (''/app/.userhash-cache.json'',
                    Doc (JObj [(''version'', JStr ''1.0.0''), (''entries'', JObj [])]))],
       fs_faulty = []\<rparr>)"
proof -
  let ?tm = "\<lparr>tokenPath = ''/app/.u1-gcp-saved-tokens.json'',
      credentials = JObj [(''refresh_token'', JStr ''r''), (''expiry_date'', JNum 1000)]\<rparr>"
  have due: "isExpired 2000 (creds (credentials ?tm))"
    by (simp add: isExpired_def creds_def num_prop_def str_prop_def)
  have has: "truthy_str (refresh_token (creds (credentials ?tm)))"
    by (simp add: creds_def str_prop_def)
  let ?c = "\<lparr>cacheFilePath = ''/app/.userhash-cache.json'', cache_version = ''1.0.0'',
      cache_entries = [(''u1'', \<lparr>originalUserHashID = ''u1'',
                                 actualTokenFilename = ''/app/.u1-gcp-saved-tokens.json'',
                                 createdAt = 1, lastAccessed = 1\<rparr>)],
      entries_prototype = None,
      Object_prototype_lastAccessed = None, isDirty = False\<rparr>"
  let ?d = "\<lparr>fs_files = [(''/app/.u1-gcp-saved-tokens.json'', Doc (JObj [(''refresh_token'', JStr ''r'')]))],
      fs_faulty = []\<rparr>"
  from invalid_grant_removes_cache_entry_only [OF due has, of ?c ?d]
  obtain c' d' where
    run: "refreshTokensIfNeeded 2000 InvalidGrant ?tm ?c ?d = (False, ?tm, c', d')"
    by blast
  have "refreshTokensIfNeeded 2000 InvalidGrant ?tm ?c ?d =
     (False, ?tm,
      \<lparr>cacheFilePath = ''/app/.userhash-cache.json'', cache_version = ''1.0.0'',
       cache_entries = [], entries_prototype = None,
      Object_prototype_lastAccessed = None, isDirty = False\<rparr>,
      \<lparr>fs_files = [(''/app/.u1-gcp-saved-tokens.json'', Doc (JObj [(''refresh_token'', JStr ''r'')])),
                   (''/app/.userhash-cache.json'',
                    Doc (JObj [(''version'', JStr ''1.0.0''), (''entries'', JObj [])]))],
       fs_faulty = []\<rparr>)"
    using due has
    by (simp add: refreshTokensIfNeeded_def getAllEntries_def removeEntry_def saveCache_def
          writeFile_def obj_delete_def JSON_stringify_def cache_json_def)
  with run show ?thesis by simp
qed

text \<open>
  The claim as stated fails: after the \<^verbatim>\<open>invalid_grant\<close> answer the credential file of
  \<open>u1\<close> is still on disk and loading the tokens of \<open>u1\<close> succeeds.
\<close>

theorem invalid_grant_keeps_file_counterexample:
  "(case refreshTokensIfNeeded 2000 InvalidGrant
     \<lparr>tokenPath = ''/app/.u1-gcp-saved-tokens.json'',
      credentials = JObj [(''refresh_token'', JStr ''r''), (''expiry_date'', JNum 1000)]\<rparr>
     \<lparr>cacheFilePath = ''/app/.userhash-cache.json'', cache_version = ''1.0.0'',
      cache_entries = [(''u1'', \<lparr>originalUserHashID = ''u1'',
                                 actualTokenFilename = ''/app/.u1-gcp-saved-tokens.json'',
                                 createdAt = 1, lastAccessed = 1\<rparr>)],
      entries_prototype = None,
      Object_prototype_lastAccessed = None, isDirty = False\<rparr>
     \<lparr>fs_files = [(''/app/.u1-gcp-saved-tokens.json'', Doc (JObj [(''refresh_token'', JStr ''r'')]))],
      fs_faulty = []\<rparr>
   of (ok, tm', c', d') \<Rightarrow>
     existsSync d' ''/app/.u1-gcp-saved-tokens.json''
     \<and> fst (loadSavedTokensWithUserHash d' ''/app'' tm' ''u1''))"
  by (simp add: refreshTokensIfNeeded_def getAllEntries_def removeEntry_def saveCache_def
        writeFile_def obj_delete_def JSON_stringify_def cache_json_def
        isExpired_def creds_def num_prop_def str_prop_def existsSync_def
        loadSavedTokensWithUserHash_def getSecureTokenPathWithFuzzyMatching_def
        getSecureTokenPathWithUserHash_def path_join_def readFile_def)

section \<open>The priority order of the transport classifier\<close>

lemma client_preference_cases:
  "client_preference req =
     (if requests_streaming req then Some True
      else if rejects_streaming req then Some False else None)"
  by (auto simp: client_preference_def requests_streaming_def rejects_streaming_def
                 str_includes_sublist
           split: option.splits)

lemma gmail_lists_disjoint:
  "set gmail_simple \<inter> set gmail_variable = {}" "set gmail_complex = {}"
  by (auto simp: gmail_simple_def gmail_variable_def gmail_complex_def)

lemma calendar_lists_disjoint:
  "set calendar_simple \<inter> set calendar_complex = {}"
  "set calendar_simple \<inter> set calendar_variable = {}"
  "set calendar_complex \<inter> set calendar_variable = {}"
  by (auto simp: calendar_simple_def calendar_variable_def calendar_complex_def)

lemma calendar_analyze_clock:
  "toolName \<noteq> ''list_events'' \<Longrightarrow>
   calendar_analyze coerced_gt Date_parse now toolName args
     = calendar_analyze coerced_gt Date_parse now' toolName args"
  by (simp add: calendar_analyze_def)

text \<open>
  Claim C8, as the code has it. Both classifiers follow this priority order, for every
  tool name, every JSON value as arguments and every set of headers: (1) a request that
  asks for streaming gets it, whatever the tool and its arguments and also when the same
  request rejects streaming; otherwise a request that rejects streaming gets the unary
  answer; otherwise (2) a tool of the simple list is unary, (3) a tool of the complex
  list is streamed, (4) a tool of the variable list is streamed exactly when its
  analyzer finds the arguments complex (a variable tool without an analyzer is unary),
  and the call throws where the analyzer throws, and (5) any other tool is unary. The
  Gmail classifier is a function of tool, arguments and headers; the Calendar classifier
  reads the clock as well, but only for \<^verbatim>\<open>list_events\<close>.
\<close>

theorem shouldUseSSE_priority:
  "(requests_streaming req \<longrightarrow>
      gmail_shouldUseSSE coerced_gt toolName args req = Some True
      \<and> calendar_shouldUseSSE coerced_gt Date_parse now toolName args req = Some True)
   \<and> (\<not> requests_streaming req \<and> rejects_streaming req \<longrightarrow>
      gmail_shouldUseSSE coerced_gt toolName args req = Some False
      \<and> calendar_shouldUseSSE coerced_gt Date_parse now toolName args req = Some False)
   \<and> (\<not> requests_streaming req \<and> \<not> rejects_streaming req \<longrightarrow>
        (toolName \<in> set gmail_simple \<longrightarrow>
            gmail_shouldUseSSE coerced_gt toolName args req = Some False)
      \<and> (toolName \<in> set gmail_complex \<longrightarrow>
            gmail_shouldUseSSE coerced_gt toolName args req = Some True)
      \<and> (toolName \<in> set gmail_variable \<longrightarrow>
            gmail_shouldUseSSE coerced_gt toolName args req
              = map_option (\<lambda>c. c = Complex) (gmail_analyze coerced_gt toolName args))
      \<and> (toolName \<notin> set gmail_simple \<union> set gmail_complex \<union> set gmail_variable \<longrightarrow>
            gmail_shouldUseSSE coerced_gt toolName args req = Some False)
      \<and> (toolName \<in> set calendar_simple \<longrightarrow>
            calendar_shouldUseSSE coerced_gt Date_parse now toolName args req = Some False)
      \<and> (toolName \<in> set calendar_complex \<longrightarrow>
            calendar_shouldUseSSE coerced_gt Date_parse now toolName args req = Some True)
      \<and> (toolName \<in> set calendar_variable \<longrightarrow>
            calendar_shouldUseSSE coerced_gt Date_parse now toolName args req
              = map_option (\<lambda>c. c = Complex)
                  (calendar_analyze coerced_gt Date_parse now toolName args))
      \<and> (toolName \<notin> set calendar_simple \<union> set calendar_complex \<union> set calendar_variable \<longrightarrow>
            calendar_shouldUseSSE coerced_gt Date_parse now toolName args req = Some False))
   \<and> (toolName \<noteq> ''list_events'' \<longrightarrow>
        calendar_shouldUseSSE coerced_gt Date_parse now toolName args req
          = calendar_shouldUseSSE coerced_gt Date_parse now' toolName args req)"
proof (intro conjI impI)
  assume n: "\<not> requests_streaming req \<and> \<not> rejects_streaming req"
  then have g: "gmail_shouldUseSSE coerced_gt toolName args req =
          (if toolName \<in> set gmail_simple then Some False
           else if toolName \<in> set gmail_complex then Some True
           else if toolName \<in> set gmail_variable
           then map_option (\<lambda>c. c = Complex) (gmail_analyze coerced_gt toolName args)
           else Some False)"
    by (simp add: gmail_shouldUseSSE_def client_preference_cases)
  from n have c: "calendar_shouldUseSSE coerced_gt Date_parse now toolName args req =
          (if toolName \<in> set calendar_simple then Some False
           else if toolName \<in> set calendar_complex then Some True
           else if toolName \<in> set calendar_variable
           then map_option (\<lambda>c. c = Complex)
                  (calendar_analyze coerced_gt Date_parse now toolName args)
           else Some False)"
    by (simp add: calendar_shouldUseSSE_def client_preference_cases)
  { assume "toolName \<in> set gmail_simple"
    then show "gmail_shouldUseSSE coerced_gt toolName args req = Some False" by (simp add: g) }
  { assume "toolName \<in> set gmail_complex"
    then show "gmail_shouldUseSSE coerced_gt toolName args req = Some True"
      by (simp add: gmail_lists_disjoint) }
  { assume "toolName \<in> set gmail_variable"
    then have "toolName \<notin> set gmail_simple" "toolName \<notin> set gmail_complex"
      using gmail_lists_disjoint by auto
    then show "gmail_shouldUseSSE coerced_gt toolName args req
              = map_option (\<lambda>c. c = Complex) (gmail_analyze coerced_gt toolName args)"
      using \<open>toolName \<in> set gmail_variable\<close> by (simp add: g) }
  { assume "toolName \<notin> set gmail_simple \<union> set gmail_complex \<union> set gmail_variable"
    then show "gmail_shouldUseSSE coerced_gt toolName args req = Some False" by (simp add: g) }
  { assume "toolName \<in> set calendar_simple"
    then show "calendar_shouldUseSSE coerced_gt Date_parse now toolName args req = Some False"
      by (simp add: c) }
  { assume a: "toolName \<in> set calendar_complex"
    then have "toolName \<notin> set calendar_simple"
      using calendar_lists_disjoint by auto
    with a show "calendar_shouldUseSSE coerced_gt Date_parse now toolName args req = Some True"
      by (simp add: c) }
  { assume a: "toolName \<in> set calendar_variable"
    then have "toolName \<notin> set calendar_simple" "toolName \<notin> set calendar_complex"
      using calendar_lists_disjoint by auto
    with a show "calendar_shouldUseSSE coerced_gt Date_parse now toolName args req
              = map_option (\<lambda>c. c = Complex)
                  (calendar_analyze coerced_gt Date_parse now toolName args)"
      by (simp add: c) }
  { assume "toolName \<notin> set calendar_simple \<union> set calendar_complex \<union> set calendar_variable"
    then show "calendar_shouldUseSSE coerced_gt Date_parse now toolName args req = Some False"
      by (simp add: c) }
next
  assume "toolName \<noteq> ''list_events''"
  then show "calendar_shouldUseSSE coerced_gt Date_parse now toolName args req
          = calendar_shouldUseSSE coerced_gt Date_parse now' toolName args req"
    using calendar_analyze_clock [of toolName coerced_gt Date_parse now args now']
    by (simp add: calendar_shouldUseSSE_def split: option.splits)
qed (simp_all add: gmail_shouldUseSSE_def calendar_shouldUseSSE_def client_preference_cases)

theorem shouldUseSSE_priority_witness:
  "gmail_shouldUseSSE (\<lambda>vs n. False) ''read_email'' (JObj [])
     (Some \<lparr>hdr_accept = Some ''application/json, text/event-stream'',
            hdr_x_prefer_streaming = None\<rparr>) = Some True
   \<and> gmail_shouldUseSSE (\<lambda>vs n. False) ''search_emails'' (JObj [(''maxResults'', JNum 500)])
     (Some \<lparr>hdr_accept = None, hdr_x_prefer_streaming = Some ''false''\<rparr>) = Some False
   \<and> gmail_shouldUseSSE (\<lambda>vs n. False) ''read_email'' (JObj []) None = Some False
   \<and> calendar_shouldUseSSE (\<lambda>vs n. False) (\<lambda>v. None) 0 ''sync_all_calendars'' (JObj []) None
       = Some True
   \<and> gmail_shouldUseSSE (\<lambda>vs n. False) ''search_emails'' (JObj [(''maxResults'', JNum 500)]) None
       = Some True
   \<and> gmail_shouldUseSSE (\<lambda>vs n. False) ''no_such_tool'' (JObj []) None = Some False"
proof -
  let ?gt = "\<lambda>(vs :: jsval list) (n :: int). False"
  let ?dp = "\<lambda>v :: json. (None :: int option)"
  let ?sse = "Some \<lparr>hdr_accept = Some ''application/json, text/event-stream'',
                    hdr_x_prefer_streaming = None\<rparr>"
  let ?no = "Some \<lparr>hdr_accept = None, hdr_x_prefer_streaming = Some ''false''\<rparr>"
  let ?big = "JObj [(''maxResults'', JNum 500)]"
  have a: "requests_streaming ?sse"
    unfolding requests_streaming_def by code_simp
  have b: "\<not> requests_streaming ?no \<and> rejects_streaming ?no"
    by (simp add: rejects_streaming_def requests_streaming_def)
  have n: "\<not> requests_streaming None \<and> \<not> rejects_streaming None"
    by (simp add: rejects_streaming_def requests_streaming_def)
  have s: "''read_email'' \<in> set gmail_simple"
    by (simp add: gmail_simple_def)
  have h: "''sync_all_calendars'' \<in> set calendar_complex"
    by (simp add: calendar_complex_def)
  have v: "''search_emails'' \<in> set gmail_variable"
    by (simp add: gmail_variable_def)
  have u: "''no_such_tool'' \<notin> set gmail_simple \<union> set gmail_complex \<union> set gmail_variable"
    by (simp add: gmail_simple_def gmail_complex_def gmail_variable_def)
  have e: "gmail_analyze ?gt ''search_emails'' ?big = Some Complex"
    by (simp add: gmail_analyze_def analyzeSearchEmails_def opt_prop_def or_else_def js_gt_def)
  note p1 = shouldUseSSE_priority [of ?sse ?gt "''read_email''" "JObj []" ?dp 0 0,
              THEN conjunct1, rule_format, OF a, THEN conjunct1]
  note p2 = shouldUseSSE_priority [of ?no ?gt "''search_emails''" ?big
              ?dp 0 0, THEN conjunct2, THEN conjunct1, rule_format, OF b, THEN conjunct1]
  note rest = shouldUseSSE_priority [THEN conjunct2, THEN conjunct2, THEN conjunct1,
              rule_format, OF n]
  note p3 = rest [of "''read_email''" ?gt "JObj []" ?dp 0, THEN conjunct1, rule_format, OF s]
  note p4 = rest [of "''sync_all_calendars''" ?gt "JObj []" ?dp 0,
              THEN conjunct2, THEN conjunct2, THEN conjunct2, THEN conjunct2, THEN conjunct2,
              THEN conjunct1, rule_format, OF h]
  note p5 = rest [of "''search_emails''" ?gt ?big ?dp 0,
              THEN conjunct2, THEN conjunct2, THEN conjunct1, rule_format, OF v]
  note p6 = rest [of "''no_such_tool''" ?gt "JObj []" ?dp 0,
              THEN conjunct2, THEN conjunct2, THEN conjunct2, THEN conjunct1, rule_format, OF u]
  show ?thesis
    using p1 p2 p3 p4 p5 p6 e by simp
qed

text \<open>
  The claim as stated fails in three ways. An explicit rejection does not win outright:
  a request with \<^verbatim>\<open>Accept: text/event-stream\<close> and \<^verbatim>\<open>x-prefer-streaming: false\<close> is
  streamed. The classifier does not resolve every argument object: \<^verbatim>\<open>search_emails\<close>
  with the query 5 throws a TypeError, since a number has no \<^verbatim>\<open>includes\<close>. And the
  Calendar classifier is not a function of tool name, arguments and headers alone: for
  \<^verbatim>\<open>list_events\<close> with a \<^verbatim>\<open>timeMin\<close> and no \<^verbatim>\<open>timeMax\<close> the missing bound is the clock, and
  the same request is classified unary one day after \<^verbatim>\<open>timeMin\<close> and streaming four
  hundred days after it.
\<close>

theorem shouldUseSSE_counterexample:
  "rejects_streaming
     (Some \<lparr>hdr_accept = Some ''text/event-stream'', hdr_x_prefer_streaming = Some ''false''\<rparr>)
   \<and> gmail_shouldUseSSE (\<lambda>vs n. False) ''read_email'' (JObj [])
       (Some \<lparr>hdr_accept = Some ''text/event-stream'', hdr_x_prefer_streaming = Some ''false''\<rparr>)
     = Some True
   \<and> gmail_shouldUseSSE (\<lambda>vs n. False) ''search_emails'' (JObj [(''query'', JNum 5)]) None = None
   \<and> calendar_shouldUseSSE (\<lambda>vs n. False)
       (\<lambda>v. if v = JStr ''2020-01-01T00:00:00Z'' then Some 1577836800000 else None)
       1577923200000 ''list_events'' (JObj [(''timeMin'', JStr ''2020-01-01T00:00:00Z'')]) None
     = Some False
   \<and> calendar_shouldUseSSE (\<lambda>vs n. False)
       (\<lambda>v. if v = JStr ''2020-01-01T00:00:00Z'' then Some 1577836800000 else None)
       1612396800000 ''list_events'' (JObj [(''timeMin'', JStr ''2020-01-01T00:00:00Z'')]) None
     = Some True"
  by (simp add: rejects_streaming_def gmail_shouldUseSSE_def client_preference_def
        startsWith_def gmail_simple_def gmail_complex_def gmail_variable_def
        gmail_analyze_def analyzeSearchEmails_def or_else_def js_gt_def
        calendar_shouldUseSSE_def calendar_simple_def
        calendar_complex_def calendar_variable_def calendar_analyze_def analyzeListEvents_def
        date_or_now_def getTime_def opt_prop_def)

section \<open>The fuzzy scan\<close>

lemma prefix_match_iff:
  "prefix_match fileId searchPrefix \<longleftrightarrow> prefix searchPrefix fileId \<or> prefix fileId searchPrefix"
proof (cases "length fileId \<le> length searchPrefix")
  case True
  then show ?thesis
    by (auto simp: prefix_match_def startsWith_prefix substring0_def min_def)
next
  case False
  then have "take (length searchPrefix) fileId = searchPrefix \<longleftrightarrow> prefix searchPrefix fileId"
    using startsWith_prefix [of fileId searchPrefix] by (simp add: startsWith_def)
  moreover have "prefix (take (length searchPrefix) fileId) searchPrefix
                   \<longleftrightarrow> take (length searchPrefix) fileId = searchPrefix"
  proof
    assume "prefix (take (length searchPrefix) fileId) searchPrefix"
    then obtain zs where zs: "searchPrefix = take (length searchPrefix) fileId @ zs"
      by (auto simp: prefix_def)
    then have "length searchPrefix = length (take (length searchPrefix) fileId) + length zs"
      by (metis length_append)
    with False have "zs = []" by simp
    with zs show "take (length searchPrefix) fileId = searchPrefix" by simp
  qed simp
  moreover have "\<not> prefix fileId searchPrefix"
    using False by (auto simp: prefix_def)
  ultimately show ?thesis
    using False by (auto simp: prefix_match_def startsWith_prefix substring0_def min_def)
qed

lemma scan_files_find: "scan_files searchPrefix listing = find (file_matches searchPrefix) listing"
  by (induction listing)
     (auto simp: file_matches_def prefix_match_iff split: option.splits)

lemma scan_prefixes_listing:
  "scan_prefixes (toLowerCase s) listing (prefixLengths (toLowerCase s)) = scan_listing s listing"
proof -
  have "nat (max 6 (int (length (toLowerCase s)) - 4)) = max 6 (length (toLowerCase s) - 4)"
    by simp
  then show ?thesis
    by (simp add: prefixLengths_def scan_listing_def substring0_def scan_files_find Let_def
          split: option.splits)
qed

lemma find_filter_weaker:
  "(\<And>x. P x \<Longrightarrow> Q x) \<Longrightarrow> find P xs = find P (filter Q xs)"
  by (induction xs) auto

lemma scan_listing_token_files:
  "scan_listing s listing
     = scan_listing s (filter (\<lambda>f. str_includes f ''gcp-saved-tokens'') listing)"
proof -
  have key: "find (file_matches sp) (filter (\<lambda>f. str_includes f ''gcp-saved-tokens'') listing)
               = find (file_matches sp) listing" for sp
    by (rule find_filter_weaker [symmetric]) (simp add: file_matches_def)
  show ?thesis
    unfolding scan_listing_def Let_def key by (rule refl)
qed

lemma stored_file_id:
  "str_includes ''.abcdef123456-gcp-saved-tokens.json'' ''gcp-saved-tokens''"
  "fileIdMatch (toLowerCase ''.abcdef123456-gcp-saved-tokens.json'') = Some ''abcdef123456''"
  by code_simp+

lemma stored_file_lookups:
  "scan_listing ''abcdef123456xx'' [''.abcdef123456-gcp-saved-tokens.json'']
     = Some ''.abcdef123456-gcp-saved-tokens.json''"
  "scan_listing ''ABCDEF1234'' [''.abcdef123456-gcp-saved-tokens.json'']
     = Some ''.abcdef123456-gcp-saved-tokens.json''"
  "scan_listing ''zzzzzz'' [''.abcdef123456-gcp-saved-tokens.json''] = None"
  by code_simp+


lemma child_name_path_join:
  "name \<noteq> [] \<Longrightarrow> CHR ''/'' \<notin> set name \<Longrightarrow> child_name dir (path_join dir name) = Some name"
  by (simp add: child_name_def path_join_def)

lemma in_map_filter:
  "x \<in> set xs \<Longrightarrow> f x = Some y \<Longrightarrow> y \<in> set (List.map_filter f xs)"
  by (induction xs) (auto split: option.splits)

lemma listed_if_exists:
  assumes "readdirSync d dir = Some listing" and "existsSync d (path_join dir name)"
    and "name \<noteq> []" and "CHR ''/'' \<notin> set name"
  shows "name \<in> set listing"
proof -
  have "listing = List.map_filter (child_name dir) (map fst (fs_files d))"
    using assms(1) by (simp add: readdirSync_def split: if_splits)
  moreover have "path_join dir name \<in> set (map fst (fs_files d))"
    using assms(2) by (simp add: existsSync_def)
  ultimately show ?thesis
    using child_name_path_join [OF assms(3,4), of dir] in_map_filter by metis
qed

lemma only_token_file:
  assumes "readdirSync d dir = Some listing"
    and "filter (\<lambda>f. str_includes f ''gcp-saved-tokens'') listing = [tok]"
    and "str_includes name ''gcp-saved-tokens''" and "name \<noteq> tok"
    and "name \<noteq> []" and "CHR ''/'' \<notin> set name"
  shows "\<not> existsSync d (path_join dir name)"
proof
  assume "existsSync d (path_join dir name)"
  with assms(1) have "name \<in> set listing"
    using assms(5,6) by (rule listed_if_exists)
  with assms(3) have "name \<in> set (filter (\<lambda>f. str_includes f ''gcp-saved-tokens'') listing)"
    by simp
  with assms(2,4) show False by simp
qed

lemma findCaseInsensitiveTokenFile_listing:
  "findCaseInsensitiveTokenFile d dir s =
     (case readdirSync d dir of
        None \<Rightarrow> None
      | Some listing \<Rightarrow> map_option (path_join dir) (scan_listing s listing))"
  by (simp add: findCaseInsensitiveTokenFile_def scan_prefixes_listing split: option.splits)

lemma finalCredPath_fuzzy:
  assumes "\<not> existsSync d (path_join dir (''.'' @ s @ ''-gcp-saved-tokens.json''))"
    and "\<not> existsSync d (path_join dir (''.'' @ s @ ''-gcp-saved-tokens.json.save''))"
  shows "finalCredPath d dir s = findCaseInsensitiveTokenFile d dir s"
  using assms
  by (simp add: finalCredPath_def getCredentialsPath_def path_join_def split: option.splits)

lemma lookup_names:
  "str_includes ''.abcdef123456xx-gcp-saved-tokens.json'' ''gcp-saved-tokens''"
  "str_includes ''.abcdef123456xx-gcp-saved-tokens.json.save'' ''gcp-saved-tokens''"
  "str_includes ''.ABCDEF1234-gcp-saved-tokens.json'' ''gcp-saved-tokens''"
  "str_includes ''.ABCDEF1234-gcp-saved-tokens.json.save'' ''gcp-saved-tokens''"
  "str_includes ''.zzzzzz-gcp-saved-tokens.json'' ''gcp-saved-tokens''"
  "str_includes ''.zzzzzz-gcp-saved-tokens.json.save'' ''gcp-saved-tokens''"
  by code_simp+

lemma lower_char_code:
  "of_char (lower_char c) =
     (let n = (of_char c :: nat)
      in if (65 \<le> n \<and> n \<le> 90) \<or> (192 \<le> n \<and> n \<le> 222 \<and> n \<noteq> 215) then n + 32 else n)"
  by (auto simp: lower_char_def Let_def)

lemma isLineTerminator_lower_char: "isLineTerminator (lower_char c) = isLineTerminator c"
  unfolding isLineTerminator_def lower_char_code by (auto simp: Let_def)

lemma isLineTerminator_iff: "isLineTerminator c \<longleftrightarrow> c = CHR 0x0A \<or> c = CHR 0x0D"
proof -
  have a: "(of_char (CHR 0x0A) :: nat) = 10" and b: "(of_char (CHR 0x0D) :: nat) = 13"
    by simp_all
  have "c = CHR 0x0A \<longleftrightarrow> (of_char c :: nat) = of_char (CHR 0x0A)"
    by (simp only: of_char_eq_iff)
  moreover have "c = CHR 0x0D \<longleftrightarrow> (of_char c :: nat) = of_char (CHR 0x0D)"
    by (simp only: of_char_eq_iff)
  ultimately show ?thesis
    unfolding isLineTerminator_def a b by simp
qed

lemma one_line_iff: "one_line name \<longleftrightarrow> (\<forall>c \<in> set name. \<not> isLineTerminator c)"
  by (auto simp: one_line_def isLineTerminator_iff)

lemma one_line_toLowerCase: "one_line (toLowerCase name) = one_line name"
  by (simp add: one_line_iff toLowerCase_def isLineTerminator_lower_char)

lemma greedy_capture_find:
  "n \<le> length rest \<Longrightarrow>
   greedy_capture rest lit n
     = find (\<lambda>fid. fid \<noteq> [] \<and> startsWith (drop (length fid) rest) lit)
         (rev (prefixes (take n rest)))"
proof (induction n)
  case 0
  then show ?case by simp
next
  case (Suc n)
  then have n: "n < length rest" by simp
  then have "take (Suc n) rest = take n rest @ [rest ! n]"
    by (rule take_Suc_conv_app_nth)
  then have "prefixes (take (Suc n) rest) = prefixes (take n rest) @ [take (Suc n) rest]"
    by (simp add: prefixes_snoc)
  moreover have "length (take (Suc n) rest) = Suc n"
    using n by simp
  moreover have "take (Suc n) rest \<noteq> []"
    using n by (cases rest) auto
  ultimately show ?case
    using Suc by simp
qed

lemma embeds_id_prefix:
  assumes "prefix fid rest"
  shows "embeds_id (CHR ''.'' # rest) fid
           \<longleftrightarrow> fid \<noteq> [] \<and> startsWith (drop (length fid) rest) ''-gcp-saved-tokens''"
proof -
  from assms obtain r where r: "rest = fid @ r"
    by (auto simp: prefix_def)
  show ?thesis
    by (simp add: embeds_id_def r startsWith_prefix)
qed

lemma embeds_id_no_dot: "name = [] \<or> hd name \<noteq> CHR ''.'' \<Longrightarrow> \<not> embeds_id name fid"
  by (cases name) (auto simp: embeds_id_def)

lemma find_cong_set: "(\<And>x. x \<in> set xs \<Longrightarrow> P x = Q x) \<Longrightarrow> find P xs = find Q xs"
  by (induction xs) auto

lemma find_never: "(\<And>x. x \<in> set xs \<Longrightarrow> \<not> P x) \<Longrightarrow> find P xs = None"
  by (induction xs) auto

lemma fileIdMatch_embedded:
  assumes "one_line fileLower"
  shows "fileIdMatch fileLower = embedded_file_id fileLower"
proof (cases fileLower)
  case Nil
  then show ?thesis
    by (simp add: fileIdMatch_def embedded_file_id_def embeds_id_def)
next
  case (Cons c rest)
  show ?thesis
  proof (cases "c = CHR ''.''")
    case False
    with Cons have "find (embeds_id fileLower) (rev (prefixes (tl fileLower))) = None"
      by (intro find_never embeds_id_no_dot) simp
    with Cons False show ?thesis
      by (simp add: fileIdMatch_def embedded_file_id_def)
  next
    case True
    from assms Cons have "\<forall>x \<in> set rest. \<not> isLineTerminator x"
      by (simp add: one_line_iff)
    then have run: "takeWhile (\<lambda>c. \<not> isLineTerminator c) rest = rest"
      by (simp add: takeWhile_eq_all_conv)
    have "find (\<lambda>fid. fid \<noteq> [] \<and> startsWith (drop (length fid) rest) ''-gcp-saved-tokens'')
            (rev (prefixes rest))
          = find (embeds_id (CHR ''.'' # rest)) (rev (prefixes rest))"
      by (rule find_cong_set) (simp add: in_set_prefixes embeds_id_prefix)
    then show ?thesis
      using Cons True greedy_capture_find [of "length rest" rest "''-gcp-saved-tokens''"]
      by (simp add: fileIdMatch_def embedded_file_id_def run)
  qed
qed

lemma file_matches_spec:
  "one_line file \<Longrightarrow> file_matches searchPrefix file = is_fuzzy_match searchPrefix file"
  by (simp add: file_matches_def is_fuzzy_match_def is_token_file_def str_includes_sublist
        fileIdMatch_embedded one_line_toLowerCase)

lemma scan_listing_spec:
  assumes "\<forall>name \<in> set listing. one_line name"
  shows "scan_listing s listing = fuzzy_scan_spec s listing"
proof -
  have key: "find (file_matches sp) listing = find (is_fuzzy_match sp) listing" for sp
    using assms by (intro find_cong_set file_matches_spec) simp
  show ?thesis
    unfolding scan_listing_def fuzzy_scan_spec_def key by (rule refl)
qed

lemma token_files_filter:
  "filter is_token_file listing = filter (\<lambda>f. str_includes f ''gcp-saved-tokens'') listing"
  by (rule filter_cong) (simp_all add: is_token_file_def str_includes_sublist)

text \<open>
  Claim C4, as the code has it. For every identity and every listing of the storage
  directory whose names are without a line break, the scan returns what the
  specification describes: the identity is lowercased, the prefix lengths \<open>len\<close>,
  \<open>max(6, len - 4)\<close> and 3 are tried in this order, and the first token file whose file id
  is a prefix of the search prefix or has it as a prefix is returned; a directory that
  cannot be listed gives no match. When the file stored for \<^verbatim>\<open>abcdef123456\<close> is the only
  token file of the directory, the lookups for \<^verbatim>\<open>abcdef123456xx\<close> and \<^verbatim>\<open>ABCDEF1234\<close>
  resolve to it, and the lookup for \<^verbatim>\<open>zzzzzz\<close> finds nothing, so that loading \<^verbatim>\<open>zzzzzz\<close>
  gives \<^verbatim>\<open>null\<close>.
\<close>

theorem fuzzy_scan_meets_spec:
  "(readdirSync d dir = None \<longrightarrow> findCaseInsensitiveTokenFile d dir s = None)
   \<and> (\<forall>listing.
         readdirSync d dir = Some listing \<and> (\<forall>name \<in> set listing. one_line name)
       \<longrightarrow> findCaseInsensitiveTokenFile d dir s
             = map_option (path_join dir) (fuzzy_scan_spec s listing))
   \<and> (\<forall>listing.
         readdirSync d dir = Some listing
         \<and> filter is_token_file listing = [''.abcdef123456-gcp-saved-tokens.json'']
       \<longrightarrow> findCaseInsensitiveTokenFile d dir ''abcdef123456xx''
             = Some (path_join dir ''.abcdef123456-gcp-saved-tokens.json'')
         \<and> findCaseInsensitiveTokenFile d dir ''ABCDEF1234''
             = Some (path_join dir ''.abcdef123456-gcp-saved-tokens.json'')
         \<and> finalCredPath d dir ''abcdef123456xx''
             = Some (path_join dir ''.abcdef123456-gcp-saved-tokens.json'')
         \<and> finalCredPath d dir ''ABCDEF1234''
             = Some (path_join dir ''.abcdef123456-gcp-saved-tokens.json'')
         \<and> findCaseInsensitiveTokenFile d dir ''zzzzzz'' = None
         \<and> loadUserCredentials d dir ''zzzzzz'' = None)"
proof (intro conjI allI impI)
  assume "readdirSync d dir = None"
  then show "findCaseInsensitiveTokenFile d dir s = None"
    by (simp add: findCaseInsensitiveTokenFile_def)
next
  fix listing
  assume "readdirSync d dir = Some listing \<and> (\<forall>name \<in> set listing. one_line name)"
  then show "findCaseInsensitiveTokenFile d dir s
               = map_option (path_join dir) (fuzzy_scan_spec s listing)"
    by (simp add: findCaseInsensitiveTokenFile_listing scan_listing_spec)
next
  fix listing
  assume h0: "readdirSync d dir = Some listing
         \<and> filter is_token_file listing = [''.abcdef123456-gcp-saved-tokens.json'']"
  then have h: "readdirSync d dir = Some listing
         \<and> filter (\<lambda>f. str_includes f ''gcp-saved-tokens'') listing
             = [''.abcdef123456-gcp-saved-tokens.json'']"
    by (simp add: token_files_filter)
  then have scan: "scan_listing t listing
                     = scan_listing t [''.abcdef123456-gcp-saved-tokens.json'']" for t
    using scan_listing_token_files [of t listing] by simp
  note absent = only_token_file [OF h [THEN conjunct1] h [THEN conjunct2]]
  show f1: "findCaseInsensitiveTokenFile d dir ''abcdef123456xx''
             = Some (path_join dir ''.abcdef123456-gcp-saved-tokens.json'')"
    using h by (simp add: findCaseInsensitiveTokenFile_listing scan stored_file_lookups)
  show f2: "findCaseInsensitiveTokenFile d dir ''ABCDEF1234''
             = Some (path_join dir ''.abcdef123456-gcp-saved-tokens.json'')"
    using h by (simp add: findCaseInsensitiveTokenFile_listing scan stored_file_lookups)
  show f3: "findCaseInsensitiveTokenFile d dir ''zzzzzz'' = None"
    using h by (simp add: findCaseInsensitiveTokenFile_listing scan stored_file_lookups)
  have a1: "\<not> existsSync d (path_join dir (''.'' @ ''abcdef123456xx'' @ ''-gcp-saved-tokens.json''))"
    using absent [OF lookup_names(1)] by simp
  have a2: "\<not> existsSync d (path_join dir (''.'' @ ''abcdef123456xx'' @ ''-gcp-saved-tokens.json.save''))"
    using absent [OF lookup_names(2)] by simp
  have b1: "\<not> existsSync d (path_join dir (''.'' @ ''ABCDEF1234'' @ ''-gcp-saved-tokens.json''))"
    using absent [OF lookup_names(3)] by simp
  have b2: "\<not> existsSync d (path_join dir (''.'' @ ''ABCDEF1234'' @ ''-gcp-saved-tokens.json.save''))"
    using absent [OF lookup_names(4)] by simp
  have z1: "\<not> existsSync d (path_join dir (''.'' @ ''zzzzzz'' @ ''-gcp-saved-tokens.json''))"
    using absent [OF lookup_names(5)] by simp
  have z2: "\<not> existsSync d (path_join dir (''.'' @ ''zzzzzz'' @ ''-gcp-saved-tokens.json.save''))"
    using absent [OF lookup_names(6)] by simp
  show "finalCredPath d dir ''abcdef123456xx''
             = Some (path_join dir ''.abcdef123456-gcp-saved-tokens.json'')"
    using finalCredPath_fuzzy [OF a1 a2] f1 by simp
  show "finalCredPath d dir ''ABCDEF1234''
             = Some (path_join dir ''.abcdef123456-gcp-saved-tokens.json'')"
    using finalCredPath_fuzzy [OF b1 b2] f2 by simp
  show "loadUserCredentials d dir ''zzzzzz'' = None"
    using finalCredPath_fuzzy [OF z1 z2] f3 by (simp add: loadUserCredentials_def)
qed

theorem fuzzy_scan_meets_spec_witness:
  "findCaseInsensitiveTokenFile
     \<lparr>fs_files = [(''/cfg/mcp.log'', Garbage ''log''),
                  (''/cfg/.abcdef123456-gcp-saved-tokens.json'',
                   Doc (JObj [(''refresh_token'', JStr ''r'')]))],
      fs_faulty = []\<rparr> ''/cfg'' ''ABCDEF1234''
   = Some ''/cfg/.abcdef123456-gcp-saved-tokens.json''
   \<and> loadUserCredentials
     \<lparr>fs_files = [(''/cfg/mcp.log'', Garbage ''log''),
                  (''/cfg/.abcdef123456-gcp-saved-tokens.json'',
                   Doc (JObj [(''refresh_token'', JStr ''r'')]))],
      fs_faulty = []\<rparr> ''/cfg'' ''zzzzzz'' = None
   \<and> findCaseInsensitiveTokenFile
     \<lparr>fs_files = [(''/cfg/mcp.log'', Garbage ''log''),
                  (''/cfg/.abcdef123456-gcp-saved-tokens.json'',
                   Doc (JObj [(''refresh_token'', JStr ''r'')]))],
      fs_faulty = []\<rparr> ''/cfg'' ''abc''
   = map_option (path_join ''/cfg'')
       (fuzzy_scan_spec ''abc'' [''mcp.log'', ''.abcdef123456-gcp-saved-tokens.json''])
   \<and> findCaseInsensitiveTokenFile
     \<lparr>fs_files = [(''/cfg/mcp.log'', Garbage ''log'')], fs_faulty = [''/cfg'']\<rparr> ''/cfg'' ''abc''
   = None"
proof -
  let ?d = "\<lparr>fs_files = [(''/cfg/mcp.log'', Garbage ''log''),
                  (''/cfg/.abcdef123456-gcp-saved-tokens.json'',
                   Doc (JObj [(''refresh_token'', JStr ''r'')]))],
      fs_faulty = []\<rparr>"
  let ?e = "\<lparr>fs_files = [(''/cfg/mcp.log'', Garbage ''log'')], fs_faulty = [''/cfg'']\<rparr>"
  have listing: "readdirSync ?d ''/cfg'' = Some [''mcp.log'', ''.abcdef123456-gcp-saved-tokens.json'']"
    by code_simp
  have one: "filter is_token_file [''mcp.log'', ''.abcdef123456-gcp-saved-tokens.json'']
             = [''.abcdef123456-gcp-saved-tokens.json'']"
    unfolding token_files_filter by code_simp
  have lines: "\<forall>name \<in> set [''mcp.log'', ''.abcdef123456-gcp-saved-tokens.json'']. one_line name"
    by (simp add: one_line_def)
  have none: "readdirSync ?e ''/cfg'' = None"
    by (simp add: readdirSync_def)
  note ex = fuzzy_scan_meets_spec [of ?d "''/cfg''" "''abc''", THEN conjunct2, THEN conjunct2,
              rule_format, OF conjI [OF listing one]]
  note sp = fuzzy_scan_meets_spec [of ?d "''/cfg''" "''abc''", THEN conjunct2, THEN conjunct1,
              rule_format, OF conjI [OF listing lines]]
  note no = fuzzy_scan_meets_spec [of ?e "''/cfg''" "''abc''", THEN conjunct1, rule_format,
              OF none]
  have p: "path_join ''/cfg'' ''.abcdef123456-gcp-saved-tokens.json''
             = ''/cfg/.abcdef123456-gcp-saved-tokens.json''"
    by (simp add: path_join_def)
  show ?thesis
    using ex [THEN conjunct2, THEN conjunct1] ex [THEN conjunct2, THEN conjunct2, THEN conjunct2,
            THEN conjunct2, THEN conjunct2] sp no
    unfolding p by (intro conjI)
qed

text \<open>
  The claim as stated fails. With the file stored for \<^verbatim>\<open>abcdef123456\<close> in the directory,
  the lookups for \<^verbatim>\<open>abcdef123456xx\<close> and \<^verbatim>\<open>ABCDEF1234\<close> resolve to another token file that
  is listed before it and whose id \<^verbatim>\<open>ab\<close> is a prefix of theirs, and the lookup for
  \<^verbatim>\<open>zzzzzz\<close> finds the token file of \<^verbatim>\<open>zz\<close> instead of nothing. And a token file whose name
  has a line break inside its id is passed over by the scan, although the id it embeds
  is the identity looked for.
\<close>

theorem fuzzy_scan_counterexample:
  "findCaseInsensitiveTokenFile
     \<lparr>fs_files = [(''/cfg/.ab-gcp-saved-tokens.json'', Doc (JObj [(''refresh_token'', JStr ''q'')])),
                  (''/cfg/.abcdef123456-gcp-saved-tokens.json'',
                   Doc (JObj [(''refresh_token'', JStr ''r'')]))],
      fs_faulty = []\<rparr> ''/cfg'' ''abcdef123456xx''
   = Some ''/cfg/.ab-gcp-saved-tokens.json''
   \<and> findCaseInsensitiveTokenFile
     \<lparr>fs_files = [(''/cfg/.ab-gcp-saved-tokens.json'', Doc (JObj [(''refresh_token'', JStr ''q'')])),
                  (''/cfg/.abcdef123456-gcp-saved-tokens.json'',
                   Doc (JObj [(''refresh_token'', JStr ''r'')]))],
      fs_faulty = []\<rparr> ''/cfg'' ''ABCDEF1234''
   = Some ''/cfg/.ab-gcp-saved-tokens.json''
   \<and> loadUserCredentials
     \<lparr>fs_files = [(''/cfg/.abcdef123456-gcp-saved-tokens.json'',
                   Doc (JObj [(''refresh_token'', JStr ''r'')])),
                  (''/cfg/.zz-gcp-saved-tokens.json'', Doc (JObj [(''refresh_token'', JStr ''z'')]))],
      fs_faulty = []\<rparr> ''/cfg'' ''zzzzzz''
   = Some (JObj [(''refresh_token'', JStr ''z'')])
   \<and> fuzzy_scan_spec (''a'' @ [CHR 0x0A] @ ''b'')
       [''.a'' @ [CHR 0x0A] @ ''b-gcp-saved-tokens.json'']
     = Some (''.a'' @ [CHR 0x0A] @ ''b-gcp-saved-tokens.json'')
   \<and> findCaseInsensitiveTokenFile
     \<lparr>fs_files = [(''/cfg/.a'' @ [CHR 0x0A] @ ''b-gcp-saved-tokens.json'',
                   Doc (JObj [(''refresh_token'', JStr ''r'')]))],
      fs_faulty = []\<rparr> ''/cfg'' (''a'' @ [CHR 0x0A] @ ''b'')
   = None"
  by code_simp

section \<open>Saving and loading a credential record\<close>

lemma obj_set_new: "k \<notin> set (map fst m) \<Longrightarrow> obj_set k v m = m @ [(k, v)]"
  by (induction m) auto

lemma without_nullish_keys: "set (map fst (without_nullish T)) \<subseteq> set (map fst T)"
  unfolding without_nullish_def
  by (induction T) (auto split: option.splits json.splits)

lemma cleanCredentials_append:
  "distinct (map fst T) \<Longrightarrow> set (map fst T) \<inter> set (map fst clean) = {}
   \<Longrightarrow> cleanCredentials T clean = clean @ without_nullish (without_field ''__proto__'' T)"
proof (induction T arbitrary: clean)
  case Nil
  show ?case by (simp add: without_nullish_def without_field_def)
next
  case (Cons kv T)
  obtain key v where kv: "kv = (key, v)" by (cases kv)
  have ih: "cleanCredentials T clean' = clean' @ without_nullish (without_field ''__proto__'' T)"
    if "set (map fst T) \<inter> set (map fst clean') = {}" for clean'
    using Cons.IH [of clean'] Cons.prems(1) that by simp
  have same: "set (map fst T) \<inter> set (map fst clean) = {}"
    using Cons.prems by auto
  show ?case
  proof (cases "v = None \<or> v = Some JNull \<or> key = ''__proto__''")
    case True
    have "cleanCredentials (kv # T) clean = cleanCredentials T clean"
    proof (cases v)
      case None
      then show ?thesis using kv by simp
    next
      case (Some x)
      then show ?thesis
        using True kv by (cases x) (auto simp: assign_prop_def)
    qed
    moreover have "without_nullish (without_field ''__proto__'' (kv # T))
                     = without_nullish (without_field ''__proto__'' T)"
      using True kv by (auto simp: without_nullish_def without_field_def)
    ultimately show ?thesis
      using ih [OF same] by simp
  next
    case False
    then obtain x where x: "v = Some x" "x \<noteq> JNull" and proto: "key \<noteq> ''__proto__''"
      by auto
    have fresh: "key \<notin> set (map fst clean)"
      using Cons.prems kv by auto
    have step: "cleanCredentials (kv # T) clean = cleanCredentials T (clean @ [(key, x)])"
      using kv x fresh proto by (cases x) (simp_all add: assign_prop_def obj_set_new)
    have "set (map fst T) \<inter> set (map fst (clean @ [(key, x)])) = {}"
      using Cons.prems kv by auto
    then have "cleanCredentials T (clean @ [(key, x)])
                 = (clean @ [(key, x)]) @ without_nullish (without_field ''__proto__'' T)"
      by (rule ih)
    moreover have "without_nullish (without_field ''__proto__'' (kv # T))
                     = (key, x) # without_nullish (without_field ''__proto__'' T)"
      using kv x proto by (cases x) (simp_all add: without_nullish_def without_field_def)
    ultimately show ?thesis
      using step by simp
  qed
qed

lemma cleanCredentials_strips:
  "distinct (map fst T)
   \<Longrightarrow> cleanCredentials T [] = without_nullish (without_field ''__proto__'' T)"
  using cleanCredentials_append [of T "[]"] by simp

lemma UserManager_roundtrip:
  assumes "distinct (map fst T)"
    and "getCredentialsPath dir U \<notin> set (fs_faulty d)"
  shows "\<exists>d'. saveUserCredentials d dir U T = Inr d'
            \<and> loadUserCredentials d' dir U
                = Some (JObj (without_nullish (without_field ''__proto__'' T)))"
proof -
  let ?p = "getCredentialsPath dir U"
  let ?t = "JSON_stringify (JObj (without_nullish (without_field ''__proto__'' T)))"
  obtain d' where w: "writeFile d ?p ?t = Inr d'"
    using assms(2) by (simp add: writeFile_def)
  then have s: "saveUserCredentials d dir U T = Inr d'"
    using assms(1) by (simp add: saveUserCredentials_def cleanCredentials_strips)
  have "existsSync d' ?p" and "readFile d' ?p = Inr ?t"
    using w by (simp_all add: existsSync_writeFile readFile_writeFile_same)
  then have "loadUserCredentials d' dir U
               = Some (JObj (without_nullish (without_field ''__proto__'' T)))"
    by (simp add: loadUserCredentials_def finalCredPath_def JSON_stringify_def)
  with s show ?thesis by blast
qed


lemma str_includes_middle: "sub \<noteq> [] \<Longrightarrow> str_includes (a @ sub @ b) sub"
  by (induction a) (auto simp: startsWith_def neq_Nil_conv)

lemma path_join_inject: "path_join dir a = path_join dir b \<longleftrightarrow> a = b"
  by (simp add: path_join_def)

lemma child_name_Some:
  "child_name dir p = Some name \<Longrightarrow> p = path_join dir name"
proof -
  assume "child_name dir p = Some name"
  then have "take (length dir + 1) p = dir @ ''/''" and "drop (length dir + 1) p = name"
    by (auto simp: child_name_def Let_def split: if_splits)
  then have "p = (dir @ ''/'') @ name"
    using append_take_drop_id [of "length dir + 1" p] by simp
  then show ?thesis by (simp add: path_join_def)
qed

lemma in_map_filterD:
  "y \<in> set (List.map_filter f xs) \<Longrightarrow> \<exists>x \<in> set xs. f x = Some y"
  by (induction xs) (auto split: option.splits)

lemma listed_exists:
  "readdirSync d dir = Some listing \<Longrightarrow> name \<in> set listing \<Longrightarrow> existsSync d (path_join dir name)"
  unfolding readdirSync_def existsSync_def
  by (auto split: if_splits dest!: in_map_filterD dest: child_name_Some)

lemma scan_listing_member:
  "scan_listing s listing = Some f \<Longrightarrow> f \<in> set listing \<and> str_includes f ''gcp-saved-tokens''"
  unfolding scan_listing_def Let_def
  by (auto simp: find_Some_iff file_matches_def split: option.splits)

lemma fuzzy_result:
  assumes "findCaseInsensitiveTokenFile d dir s = Some p"
  shows "existsSync d p \<and> (\<exists>name. p = path_join dir name \<and> str_includes name ''gcp-saved-tokens'')"
proof -
  from assms obtain listing f where l: "readdirSync d dir = Some listing"
    and f: "scan_listing s listing = Some f" and p: "p = path_join dir f"
    by (auto simp: findCaseInsensitiveTokenFile_listing split: option.splits)
  from f have "f \<in> set listing" "str_includes f ''gcp-saved-tokens''"
    using scan_listing_member by blast+
  with l p show ?thesis
    using listed_exists by blast
qed

text \<open>What the fuzzy resolution of a path looks at: the token files of the listing, and
  whether the exact path exists.\<close>

lemma fuzzy_path_depends:
  assumes "map_option (filter (\<lambda>f. str_includes f ''gcp-saved-tokens'')) (readdirSync d' dir)
         = map_option (filter (\<lambda>f. str_includes f ''gcp-saved-tokens'')) (readdirSync d dir)"
    and "existsSync d' (getSecureTokenPathWithUserHash dir U)
         = existsSync d (getSecureTokenPathWithUserHash dir U)"
  shows "getSecureTokenPathWithFuzzyMatching d' dir U = getSecureTokenPathWithFuzzyMatching d dir U"
proof -
  have e: "findCaseInsensitiveTokenFile d' dir U = findCaseInsensitiveTokenFile d dir U"
  proof (cases "readdirSync d dir")
    case None
    with assms(1) show ?thesis by (simp add: findCaseInsensitiveTokenFile_listing)
  next
    case (Some listing)
    with assms(1) obtain listing' where "readdirSync d' dir = Some listing'"
      and "filter (\<lambda>f. str_includes f ''gcp-saved-tokens'') listing'
             = filter (\<lambda>f. str_includes f ''gcp-saved-tokens'') listing"
      by auto
    with Some show ?thesis
      using scan_listing_token_files [of U listing] scan_listing_token_files [of U listing']
      by (simp add: findCaseInsensitiveTokenFile_listing)
  qed
  show ?thesis
    unfolding getSecureTokenPathWithFuzzyMatching_def Let_def e assms(2) by (rule refl)
qed

lemma writeFile_keys:
  assumes "writeFile d p t = Inr d'"
  shows "fs_faulty d' = fs_faulty d"
    and "map fst (fs_files d') = (if existsSync d p then map fst (fs_files d)
                                   else map fst (fs_files d) @ [p])"
proof -
  from assms have d': "d' = d\<lparr>fs_files := obj_set p t (fs_files d)\<rparr>"
    by (simp add: writeFile_def split: if_splits)
  show "fs_faulty d' = fs_faulty d"
    by (simp add: d')
  show "map fst (fs_files d') = (if existsSync d p then map fst (fs_files d)
                                   else map fst (fs_files d) @ [p])"
    unfolding d' existsSync_def by (simp add: map_fst_obj_set)
qed

lemma map_filter_append:
  "List.map_filter f (xs @ ys) = List.map_filter f xs @ List.map_filter f ys"
  by (induction xs) (auto split: option.splits)

text \<open>Writing a file that is not a token file of the directory leaves the token files
  of the listing as they are.\<close>

lemma writeFile_token_listing:
  assumes "writeFile d p t = Inr d'"
    and "existsSync d p \<or> (\<forall>name. child_name dir p = Some name
                                \<longrightarrow> \<not> str_includes name ''gcp-saved-tokens'')"
  shows "map_option (filter (\<lambda>f. str_includes f ''gcp-saved-tokens'')) (readdirSync d' dir)
         = map_option (filter (\<lambda>f. str_includes f ''gcp-saved-tokens'')) (readdirSync d dir)"
proof (cases "existsSync d p")
  case True
  then show ?thesis
    using writeFile_keys [OF assms(1)] by (simp add: readdirSync_def)
next
  case False
  then have keys: "map fst (fs_files d') = map fst (fs_files d) @ [p]"
    and faulty: "fs_faulty d' = fs_faulty d"
    using writeFile_keys [OF assms(1)] by simp_all
  have "filter (\<lambda>f. str_includes f ''gcp-saved-tokens'') (List.map_filter (child_name dir) [p]) = []"
    using assms(2) False by (cases "child_name dir p") simp_all
  then show ?thesis
    by (simp add: readdirSync_def keys faulty map_filter_append)
qed


lemma saveCache_disk:
  "snd (saveCache c d) = d \<or> (\<exists>t. writeFile d (cacheFilePath c) t = Inr (snd (saveCache c d)))"
  by (auto simp: saveCache_def split: sum.splits)

lemma cache_file_name:
  "child_name root (path_join root ''.userhash-cache.json'') = Some ''.userhash-cache.json''"
  "\<not> str_includes ''.userhash-cache.json'' ''gcp-saved-tokens''"
  by (simp add: child_name_path_join, code_simp)

lemma token_path_name:
  "\<exists>name. getSecureTokenPathWithFuzzyMatching d root U = path_join root name
          \<and> str_includes name ''gcp-saved-tokens''"
proof -
  have "str_includes (''.'' @ U @ ''-gcp-saved-tokens.json'') ''gcp-saved-tokens''"
    using str_includes_middle [of "''gcp-saved-tokens''" "''.'' @ U @ ''-''" "''.json''"] by simp
  then show ?thesis
    using fuzzy_result [of d root U]
    by (auto simp: getSecureTokenPathWithFuzzyMatching_def getSecureTokenPathWithUserHash_def
          Let_def split: option.splits)
qed

lemma token_path_exists_or_exact:
  "existsSync d (getSecureTokenPathWithFuzzyMatching d root U)
   \<or> getSecureTokenPathWithFuzzyMatching d root U = getSecureTokenPathWithUserHash root U"
  using fuzzy_result [of d root U]
  by (auto simp: getSecureTokenPathWithFuzzyMatching_def Let_def split: option.splits)

text \<open>A write to the resolved token path, followed or not by a write of the cache file,
  leaves the resolution of the identity where it was, with the written content there.\<close>

lemma resolution_after_save:
  assumes w: "writeFile d (getSecureTokenPathWithFuzzyMatching d root U) content = Inr d1"
    and f: "dF = d1 \<or> (\<exists>t. writeFile d1 (path_join root ''.userhash-cache.json'') t = Inr dF)"
  shows "getSecureTokenPathWithFuzzyMatching dF root U = getSecureTokenPathWithFuzzyMatching d root U"
    and "existsSync dF (getSecureTokenPathWithFuzzyMatching d root U)"
    and "readFile dF (getSecureTokenPathWithFuzzyMatching d root U) = Inr content"
proof -
  let ?tp = "getSecureTokenPathWithFuzzyMatching d root U"
  let ?exact = "getSecureTokenPathWithUserHash root U"
  let ?cache = "path_join root ''.userhash-cache.json''"
  obtain name where name: "?tp = path_join root name" "str_includes name ''gcp-saved-tokens''"
    using token_path_name by blast
  have tp_cache: "?tp \<noteq> ?cache"
    using name cache_file_name(2) by (auto simp: path_join_inject)
  have exact_cache: "?exact \<noteq> ?cache"
    using token_path_name [of "\<lparr>fs_files = [], fs_faulty = [root]\<rparr>" root U] cache_file_name(2)
    by (auto simp: getSecureTokenPathWithFuzzyMatching_def findCaseInsensitiveTokenFile_def
          readdirSync_def existsSync_def path_join_inject)
  have ex1: "existsSync d1 ?tp" and rd1: "readFile d1 ?tp = Inr content"
    using w by (simp_all add: existsSync_writeFile readFile_writeFile_same)
  show exF: "existsSync dF ?tp"
    using f ex1 by (auto simp: existsSync_writeFile)
  show "readFile dF ?tp = Inr content"
    using f rd1 tp_cache by (auto simp: readFile_writeFile_other)
  show "getSecureTokenPathWithFuzzyMatching dF root U = ?tp"
  proof (cases "existsSync d ?tp")
    case True
    have l1: "map_option (filter (\<lambda>f. str_includes f ''gcp-saved-tokens'')) (readdirSync d1 root)
            = map_option (filter (\<lambda>f. str_includes f ''gcp-saved-tokens'')) (readdirSync d root)"
      using writeFile_token_listing [OF w] True by simp
    have e1: "existsSync d1 ?exact = existsSync d ?exact"
      using w True by (auto simp: existsSync_writeFile)
    have lF: "map_option (filter (\<lambda>f. str_includes f ''gcp-saved-tokens'')) (readdirSync dF root)
            = map_option (filter (\<lambda>f. str_includes f ''gcp-saved-tokens'')) (readdirSync d1 root)"
      using f writeFile_token_listing [of d1 ?cache _ dF root] cache_file_name by auto
    have eF: "existsSync dF ?exact = existsSync d1 ?exact"
      using f exact_cache by (auto simp: existsSync_writeFile)
    show ?thesis
      using fuzzy_path_depends [of dF root d U] l1 e1 lF eF by simp
  next
    case False
    then have "?tp = ?exact"
      using token_path_exists_or_exact [of d root U] by simp
    with exF show ?thesis
      by (simp add: getSecureTokenPathWithFuzzyMatching_def)
  qed
qed

lemma own_json_without_undefined: "own_json T = JObj (without_undefined T)"
  by (simp add: own_json_def without_undefined_def)

lemma addEntry_disk:
  "snd (addEntry now c d orig fname) = d
   \<or> (\<exists>t. writeFile d (cacheFilePath c) t = Inr (snd (addEntry now c d orig fname)))"
proof -
  have "snd (saveCache c1 d) = d \<or> (\<exists>t. writeFile d (cacheFilePath c) t = Inr (snd (saveCache c1 d)))"
    if "cacheFilePath c1 = cacheFilePath c" for c1
    using saveCache_disk [of c1 d] that by simp
  then show ?thesis
    by (simp add: addEntry_def Let_def)
qed

lemma TokenManager_roundtrip:
  assumes c: "cacheFilePath c = path_join root ''.userhash-cache.json''"
    and w: "tokenPath (TokenManager_new d root (Some U)) \<notin> set (fs_faulty d)"
    and u: "U \<noteq> []"
  shows "\<exists>tm1 c1 d1.
           saveTokens now (TokenManager_new d root (Some U)) c d T orig = Inr (tm1, c1, d1)
         \<and> loadSavedTokensWithUserHash d1 root tm2 U
             = (True, tm2\<lparr>tokenPath := tokenPath tm1,
                           credentials := JObj (without_undefined T)\<rparr>, d1)"
proof -
  let ?tm = "TokenManager_new d root (Some U)"
  let ?tp = "getSecureTokenPathWithFuzzyMatching d root U"
  let ?content = "JSON_stringify (own_json T)"
  have tp: "tokenPath ?tm = ?tp"
    using u by (simp add: TokenManager_new_def)
  obtain d1 where w1: "writeFile d ?tp ?content = Inr d1"
    using w tp by (simp add: writeFile_def)
  let ?cached = "truthy_str orig \<and> ?tp \<noteq> []"
  let ?cF = "if ?cached then fst (addEntry now c d1 (the orig) ?tp) else c"
  let ?dF = "if ?cached then snd (addEntry now c d1 (the orig) ?tp) else d1"
  let ?tm1 = "?tm\<lparr>credentials := own_json T\<rparr>"
  have save: "saveTokens now ?tm c d T orig = Inr (?tm1, ?cF, ?dF)"
    using w1 tp by (simp add: saveTokens_def Let_def split_beta)
  have "?dF = d1 \<or> (\<exists>t. writeFile d1 (path_join root ''.userhash-cache.json'') t = Inr ?dF)"
    using addEntry_disk [of now c d1 "the orig" ?tp] c by auto
  note after = resolution_after_save [OF w1 this]
  have "loadSavedTokensWithUserHash ?dF root tm2 U
          = (True, tm2\<lparr>tokenPath := ?tp, credentials := own_json T\<rparr>, ?dF)"
    unfolding loadSavedTokensWithUserHash_def Let_def
    using after by (simp add: JSON_stringify_def own_json_def)
  then show ?thesis
    using save tp by (auto simp: own_json_without_undefined)
qed

text \<open>
  Claim C5, as the code has it. A token object is the list of its fields, whose names
  are distinct. In the Gmail server, where the credential path can be written,
  \<^verbatim>\<open>saveUserCredentials\<close> followed by \<^verbatim>\<open>loadUserCredentials\<close> returns the object without its
  null and undefined fields and without a field named \<^verbatim>\<open>__proto__\<close>, which the copying
  loop of the save hands to the prototype accessor and so loses. In the Calendar server,
  \<^verbatim>\<open>saveTokens\<close> of the manager created for the identity, followed by
  \<^verbatim>\<open>loadSavedTokensWithUserHash\<close>, returns the object without its undefined fields:
  \<^verbatim>\<open>saveTokens\<close> strips nothing, \<^verbatim>\<open>JSON.stringify\<close> leaves the undefined fields out and
  the null fields are written and read back.
\<close>

theorem save_load_roundtrip:
  "(distinct (map fst T) \<and> getCredentialsPath dir U \<notin> set (fs_faulty d)
    \<longrightarrow> (\<exists>d'. saveUserCredentials d dir U T = Inr d'
              \<and> loadUserCredentials d' dir U
                  = Some (JObj (without_nullish (without_field ''__proto__'' T)))))
   \<and> (cacheFilePath c = path_join dir ''.userhash-cache.json''
      \<and> tokenPath (TokenManager_new d dir (Some U)) \<notin> set (fs_faulty d) \<and> U \<noteq> []
    \<longrightarrow> (\<exists>tm1 c1 d1.
           saveTokens now (TokenManager_new d dir (Some U)) c d T orig = Inr (tm1, c1, d1)
         \<and> loadSavedTokensWithUserHash d1 dir tm2 U
             = (True, tm2\<lparr>tokenPath := tokenPath tm1,
                           credentials := JObj (without_undefined T)\<rparr>, d1)))"
  using UserManager_roundtrip [of T dir U d] TokenManager_roundtrip [of c dir d U now T orig tm2]
  by blast

theorem save_load_roundtrip_witness:
  "(\<exists>d'. saveUserCredentials \<lparr>fs_files = [], fs_faulty = []\<rparr> ''/cfg'' ''u1''
            [(''access_token'', Some (JStr ''at'')), (''refresh_token'', Some JNull),
             (''scope'', None)] = Inr d'
        \<and> loadUserCredentials d' ''/cfg'' ''u1'' = Some (JObj [(''access_token'', JStr ''at'')]))
   \<and> (\<exists>tm1 c1 d1.
         saveTokens 5 (TokenManager_new \<lparr>fs_files = [], fs_faulty = []\<rparr> ''/app'' (Some ''u1''))
           \<lparr>cacheFilePath = ''/app/.userhash-cache.json'', cache_version = ''1.0.0'',
            cache_entries = [], entries_prototype = None,
            Object_prototype_lastAccessed = None, isDirty = False\<rparr>
           \<lparr>fs_files = [], fs_faulty = []\<rparr>
           [(''access_token'', Some (JStr ''at'')), (''refresh_token'', Some JNull),
            (''scope'', None)] (Some ''u1'') = Inr (tm1, c1, d1)
       \<and> loadSavedTokensWithUserHash d1 ''/app'' \<lparr>tokenPath = [], credentials = JObj []\<rparr> ''u1''
           = (True, \<lparr>tokenPath = tokenPath tm1,
                     credentials = JObj [(''access_token'', JStr ''at''),
                                         (''refresh_token'', JNull)]\<rparr>, d1))"
proof -
  let ?T = "[(''access_token'', Some (JStr ''at'')), (''refresh_token'', Some JNull),
             (''scope'', None)]"
  let ?d = "\<lparr>fs_files = [], fs_faulty = []\<rparr>"
  let ?c = "\<lparr>cacheFilePath = ''/app/.userhash-cache.json'', cache_version = ''1.0.0'',
            cache_entries = [], entries_prototype = None,
            Object_prototype_lastAccessed = None, isDirty = False\<rparr>"
  have g: "distinct (map fst ?T) \<and> getCredentialsPath ''/cfg'' ''u1'' \<notin> set (fs_faulty ?d)"
    by simp
  have k: "cacheFilePath ?c = path_join ''/app'' ''.userhash-cache.json''
           \<and> tokenPath (TokenManager_new ?d ''/app'' (Some ''u1'')) \<notin> set (fs_faulty ?d)
           \<and> ''u1'' \<noteq> []"
    by (simp add: path_join_def)
  have n: "without_nullish (without_field ''__proto__'' ?T) = [(''access_token'', JStr ''at'')]"
    and u: "without_undefined ?T = [(''access_token'', JStr ''at''), (''refresh_token'', JNull)]"
    by (simp_all add: without_nullish_def without_undefined_def without_field_def)
  show ?thesis
    using save_load_roundtrip [of ?T "''/cfg''" "''u1''" ?d ?c 5 "Some ''u1''"
            "\<lparr>tokenPath = [], credentials = JObj []\<rparr>", THEN conjunct1, rule_format, OF g]
          save_load_roundtrip [of ?T "''/app''" "''u1''" ?d ?c 5 "Some ''u1''"
            "\<lparr>tokenPath = [], credentials = JObj []\<rparr>", THEN conjunct2, rule_format, OF k]
    unfolding n u by simp
qed

text \<open>
  The claim as stated fails in both servers. In the Calendar server a null
  \<^verbatim>\<open>refresh_token\<close> is saved and loaded back, so the loaded record is not the token object
  without its null fields. In the Gmail server a token object with a field named
  \<^verbatim>\<open>__proto__\<close>, as \<^verbatim>\<open>JSON.parse\<close> creates it, comes back without that field, although it is
  neither null nor undefined.
\<close>

theorem save_load_counterexample:
  "(case saveTokens 5 (TokenManager_new \<lparr>fs_files = [], fs_faulty = []\<rparr> ''/app'' (Some ''u1''))
           \<lparr>cacheFilePath = ''/app/.userhash-cache.json'', cache_version = ''1.0.0'',
            cache_entries = [], entries_prototype = None,
            Object_prototype_lastAccessed = None, isDirty = False\<rparr>
           \<lparr>fs_files = [], fs_faulty = []\<rparr>
           [(''access_token'', Some (JStr ''at'')), (''refresh_token'', Some JNull)] None of
      Inl err \<Rightarrow> False
    | Inr (tm1, c1, d1) \<Rightarrow>
        credentials (fst (snd (loadSavedTokensWithUserHash d1 ''/app''
                                 \<lparr>tokenPath = [], credentials = JObj []\<rparr> ''u1'')))
          = JObj [(''access_token'', JStr ''at''), (''refresh_token'', JNull)])
   \<and> without_nullish [(''access_token'', Some (JStr ''at'')), (''refresh_token'', Some JNull)]
       = [(''access_token'', JStr ''at'')]
   \<and> (case saveUserCredentials \<lparr>fs_files = [], fs_faulty = []\<rparr> ''/cfg'' ''u1''
             [(''access_token'', Some (JStr ''at'')),
              (''__proto__'', Some (JObj [(''scope'', JStr ''calendar'')]))] of
        Inl err \<Rightarrow> False
      | Inr d' \<Rightarrow>
          loadUserCredentials d' ''/cfg'' ''u1'' = Some (JObj [(''access_token'', JStr ''at'')]))
   \<and> without_nullish [(''access_token'', Some (JStr ''at'')),
                       (''__proto__'', Some (JObj [(''scope'', JStr ''calendar'')]))]
       = [(''access_token'', JStr ''at''), (''__proto__'', JObj [(''scope'', JStr ''calendar'')])]"
  by code_simp


section \<open>The order in which a credential file is resolved\<close>

lemma saveCache_exists_iff:
  "p \<noteq> cacheFilePath c \<Longrightarrow> existsSync (snd (saveCache c d)) p = existsSync d p"
  by (auto simp: saveCache_def existsSync_writeFile split: sum.splits)

lemma getTokenFilename_hit:
  assumes "map_of (cache_entries c) u = Some e"
  shows "\<exists>c' d'. getTokenFilename now c d u = Some (Some (actualTokenFilename e), c', d')
           \<and> (\<forall>p. existsSync d p \<longrightarrow> existsSync d' p)
           \<and> (\<forall>p. p \<noteq> cacheFilePath c \<longrightarrow> existsSync d' p = existsSync d p)
           \<and> map_of (cache_entries c') u \<noteq> None
           \<and> cacheFilePath c' = cacheFilePath c"
proof -
  let ?c1 = "c\<lparr>cache_entries := obj_set u (e\<lparr>lastAccessed := now\<rparr>) (cache_entries c),
                isDirty := True\<rparr>"
  have "getTokenFilename now c d u
          = Some (Some (actualTokenFilename e), fst (saveCache ?c1 d), snd (saveCache ?c1 d))"
    using assms by (simp add: getTokenFilename_def split_beta)
  moreover have "\<forall>p. existsSync d p \<longrightarrow> existsSync (snd (saveCache ?c1 d)) p"
    by (simp add: saveCache_exists)
  moreover have "\<forall>p. p \<noteq> cacheFilePath c
                  \<longrightarrow> existsSync (snd (saveCache ?c1 d)) p = existsSync d p"
    by (simp add: saveCache_exists_iff)
  moreover have "map_of (cache_entries (fst (saveCache ?c1 d))) u \<noteq> None"
    by (simp add: saveCache_entries map_of_obj_set)
  moreover have "cacheFilePath (fst (saveCache ?c1 d)) = cacheFilePath c"
    by (simp add: saveCache_cacheFilePath)
  ultimately show ?thesis by blast
qed

lemma getTokenFilename_prototype_entry:
  assumes "map_of (cache_entries c) ''__proto__'' = None" and "entries_prototype c = Some e"
  shows "\<exists>c' d'. getTokenFilename now c d ''__proto__''
                     = Some (Some (actualTokenFilename e), c', d')
           \<and> (\<forall>p. existsSync d p \<longrightarrow> existsSync d' p)"
proof -
  let ?c1 = "c\<lparr>entries_prototype := Some (e\<lparr>lastAccessed := now\<rparr>), isDirty := True\<rparr>"
  have "getTokenFilename now c d ''__proto__''
          = Some (Some (actualTokenFilename e), fst (saveCache ?c1 d), snd (saveCache ?c1 d))"
    using assms by (simp add: getTokenFilename_def inherited_get_def split_beta)
  moreover have "\<forall>p. existsSync d p \<longrightarrow> existsSync (snd (saveCache ?c1 d)) p"
    by (simp add: saveCache_exists)
  ultimately show ?thesis by blast
qed

text \<open>A lookup of a name that is no own property and does not reach a prototype entry
  throws, or returns nothing and has at most marked the cache dirty and saved it.\<close>

lemma getTokenFilename_no_mapping:
  assumes "map_of (cache_entries c) u = None"
    and "\<not> (u = ''__proto__'' \<and> entries_prototype c \<noteq> None)"
  shows "getTokenFilename now c d u = None
         \<or> (\<exists>c' d'. getTokenFilename now c d u = Some (None, c', d')
               \<and> cache_entries c' = cache_entries c
               \<and> (d' = d \<or> (\<exists>t. writeFile d (cacheFilePath c) t = Inr d')))"
proof -
  have np: "inherited_get c u \<noteq> PrototypeEntry e" for e
    using assms(2)
    by (auto simp: inherited_get_def Object_prototype_get_def split: option.splits if_splits)
  have sv: "cache_entries (fst (saveCache c1 d)) = cache_entries c
            \<and> (snd (saveCache c1 d) = d
                \<or> (\<exists>t. writeFile d (cacheFilePath c) t = Inr (snd (saveCache c1 d))))"
    if "cache_entries c1 = cache_entries c" and "cacheFilePath c1 = cacheFilePath c" for c1
    using that saveCache_disk [of c1 d] by (simp add: saveCache_entries)
  show ?thesis
  proof (cases "inherited_get c u")
    case (PrototypeEntry e)
    with np [of e] show ?thesis by simp
  next
    case ObjectPrototype
    let ?c1 = "c\<lparr>Object_prototype_lastAccessed := Some now, isDirty := True\<rparr>"
    have "getTokenFilename now c d u = Some (None, fst (saveCache ?c1 d), snd (saveCache ?c1 d))"
      using assms(1) ObjectPrototype by (simp add: getTokenFilename_def split_beta)
    then show ?thesis
      using sv [of ?c1]
      by (intro disjI2 exI [of _ "fst (saveCache ?c1 d)"] exI [of _ "snd (saveCache ?c1 d)"])
         simp
  next
    case Method
    let ?c1 = "c\<lparr>isDirty := True\<rparr>"
    have "getTokenFilename now c d u = Some (None, fst (saveCache ?c1 d), snd (saveCache ?c1 d))"
      using assms(1) Method by (simp add: getTokenFilename_def split_beta)
    then show ?thesis
      using sv [of ?c1]
      by (intro disjI2 exI [of _ "fst (saveCache ?c1 d)"] exI [of _ "snd (saveCache ?c1 d)"])
         simp
  next
    case (Primitive v)
    then show ?thesis
      using assms(1) by (simp add: getTokenFilename_def)
  next
    case NoProperty
    then show ?thesis
      using assms(1) by (simp add: getTokenFilename_def)
  qed
qed

lemma removeEntry_removes:
  "map_of (cache_entries (fst (snd (removeEntry c d u)))) u = None"
  by (cases "map_of (cache_entries c) u")
     (simp_all add: removeEntry_def split_beta saveCache_entries map_of_obj_delete)

text \<open>Writing the cache file of the directory leaves the resolution of every identity
  where it was: the cache file is neither a token file nor an exact path.\<close>

lemma exact_path_not_cache:
  "getSecureTokenPathWithUserHash root U \<noteq> path_join root ''.userhash-cache.json''"
proof -
  have "str_includes (''.'' @ U @ ''-gcp-saved-tokens.json'') ''gcp-saved-tokens''"
    using str_includes_middle [of "''gcp-saved-tokens''" "''.'' @ U @ ''-''" "''.json''"] by simp
  then show ?thesis
    using cache_file_name(2) by (auto simp: getSecureTokenPathWithUserHash_def path_join_inject)
qed

lemma cache_write_keeps_resolution:
  assumes "dF = d \<or> (\<exists>t. writeFile d (path_join root ''.userhash-cache.json'') t = Inr dF)"
  shows "getSecureTokenPathWithFuzzyMatching dF root U = getSecureTokenPathWithFuzzyMatching d root U"
proof -
  let ?cache = "path_join root ''.userhash-cache.json''"
  have l: "map_option (filter (\<lambda>f. str_includes f ''gcp-saved-tokens'')) (readdirSync dF root)
         = map_option (filter (\<lambda>f. str_includes f ''gcp-saved-tokens'')) (readdirSync d root)"
    using assms writeFile_token_listing [of d ?cache _ dF root] cache_file_name by auto
  have e: "existsSync dF (getSecureTokenPathWithUserHash root U)
             = existsSync d (getSecureTokenPathWithUserHash root U)"
    using assms exact_path_not_cache [of root U] by (auto simp: existsSync_writeFile)
  show ?thesis
    using fuzzy_path_depends [OF l e] .
qed

text \<open>
  Claim C3, as the code has it. The Gmail server's \<^verbatim>\<open>loadUserCredentials\<close> tries the exact
  path, then the \<^verbatim>\<open>.save\<close> variant, then the fuzzy scan, and knows no lookup cache; it
  returns \<^verbatim>\<open>null\<close> when none of the three yields a file and also when the file found
  cannot be read or parsed. The Calendar server's resolver asks the lookup cache first:
  a mapping whose file exists wins even over an existing exact path; a mapping whose file
  is gone is removed; without a usable mapping the exact path is tried, then the fuzzy
  scan, and failing both the exact path is returned although no file is there. It knows
  no \<^verbatim>\<open>.save\<close> step. The mapping of an identity is the own property of the table for
  it, and for the identity \<^verbatim>\<open>__proto__\<close> the entry that \<^verbatim>\<open>addEntry\<close> has made the prototype
  of the table. An identity without a mapping is resolved by exact path and fuzzy scan
  on the disk as the lookup leaves it, which is the resolution on the disk before the
  call when the cache file is the one of the directory; the lookup leaves cache and disk
  untouched when the identity names no inherited property either.
\<close>

theorem load_resolution_order:
  "(existsSync d (getCredentialsPath dir U)
      \<longrightarrow> finalCredPath d dir U = Some (getCredentialsPath dir U))
   \<and> (\<not> existsSync d (getCredentialsPath dir U)
        \<and> existsSync d (getCredentialsPath dir U @ ''.save'')
      \<longrightarrow> finalCredPath d dir U = Some (getCredentialsPath dir U @ ''.save''))
   \<and> (\<not> existsSync d (getCredentialsPath dir U)
        \<and> \<not> existsSync d (getCredentialsPath dir U @ ''.save'')
      \<longrightarrow> finalCredPath d dir U = findCaseInsensitiveTokenFile d dir U)
   \<and> (loadUserCredentials d dir U = None \<longleftrightarrow>
        finalCredPath d dir U = None
        \<or> (\<exists>p. finalCredPath d dir U = Some p
               \<and> (case readFile d p of
                     Inl err \<Rightarrow> True
                   | Inr content \<Rightarrow> JSON_parse content = None \<or> JSON_parse content = Some JNull)))
   \<and> (\<forall>e. map_of (cache_entries c) U = Some e \<and> actualTokenFilename e \<noteq> []
            \<and> existsSync d (actualTokenFilename e)
          \<longrightarrow> fst (getSecureTokenPathWithCacheAndFuzzyMatching now c d dir U)
                = actualTokenFilename e)
   \<and> (\<forall>e. map_of (cache_entries c) U = Some e \<and> actualTokenFilename e \<noteq> []
            \<and> \<not> existsSync d (actualTokenFilename e)
            \<and> actualTokenFilename e \<noteq> cacheFilePath c
          \<longrightarrow> (case getSecureTokenPathWithCacheAndFuzzyMatching now c d dir U of
                 (p, c', d') \<Rightarrow>
                   map_of (cache_entries c') U = None
                   \<and> p = getSecureTokenPathWithFuzzyMatching d' dir U))
   \<and> (\<forall>e. U = ''__proto__'' \<and> map_of (cache_entries c) U = None
            \<and> entries_prototype c = Some e \<and> actualTokenFilename e \<noteq> []
            \<and> existsSync d (actualTokenFilename e)
          \<longrightarrow> fst (getSecureTokenPathWithCacheAndFuzzyMatching now c d dir U)
                = actualTokenFilename e)
   \<and> (map_of (cache_entries c) U = None
        \<and> \<not> (U = ''__proto__'' \<and> entries_prototype c \<noteq> None)
        \<longrightarrow> (case getSecureTokenPathWithCacheAndFuzzyMatching now c d dir U of
               (p, c', d') \<Rightarrow>
                 p = getSecureTokenPathWithFuzzyMatching d' dir U
                 \<and> map_of (cache_entries c') U = None
                 \<and> (cacheFilePath c = path_join dir ''.userhash-cache.json''
                    \<longrightarrow> p = getSecureTokenPathWithFuzzyMatching d dir U)))
   \<and> (map_of (cache_entries c) U = None \<and> inherited_get c U = NoProperty
        \<longrightarrow> getSecureTokenPathWithCacheAndFuzzyMatching now c d dir U
              = (getSecureTokenPathWithFuzzyMatching d dir U, c, d))
   \<and> getSecureTokenPathWithFuzzyMatching d dir U =
        (if existsSync d (getSecureTokenPathWithUserHash dir U)
         then getSecureTokenPathWithUserHash dir U
         else case findCaseInsensitiveTokenFile d dir U of
                Some fuzzyPath \<Rightarrow> fuzzyPath
              | None \<Rightarrow> getSecureTokenPathWithUserHash dir U)"
proof (intro conjI allI impI)
  show "loadUserCredentials d dir U = None \<longleftrightarrow>
        finalCredPath d dir U = None
        \<or> (\<exists>p. finalCredPath d dir U = Some p
               \<and> (case readFile d p of
                     Inl err \<Rightarrow> True
                   | Inr content \<Rightarrow> JSON_parse content = None \<or> JSON_parse content = Some JNull))"
    by (auto simp: loadUserCredentials_def split: option.splits sum.splits json.splits)
next
  fix e
  assume h: "map_of (cache_entries c) U = Some e \<and> actualTokenFilename e \<noteq> []
            \<and> existsSync d (actualTokenFilename e)"
  with getTokenFilename_hit [of c U e now d] obtain c' d' where
    "getTokenFilename now c d U = Some (Some (actualTokenFilename e), c', d')"
    "existsSync d' (actualTokenFilename e)"
    by blast
  with h show "fst (getSecureTokenPathWithCacheAndFuzzyMatching now c d dir U)
                = actualTokenFilename e"
    by (simp add: getSecureTokenPathWithCacheAndFuzzyMatching_def)
next
  fix e
  assume h: "map_of (cache_entries c) U = Some e \<and> actualTokenFilename e \<noteq> []
            \<and> \<not> existsSync d (actualTokenFilename e)
            \<and> actualTokenFilename e \<noteq> cacheFilePath c"
  with getTokenFilename_hit [of c U e now d] obtain c1 d1 where
    g: "getTokenFilename now c d U = Some (Some (actualTokenFilename e), c1, d1)"
    and "\<not> existsSync d1 (actualTokenFilename e)"
    by blast
  with h show "case getSecureTokenPathWithCacheAndFuzzyMatching now c d dir U of
                 (p, c', d') \<Rightarrow>
                   map_of (cache_entries c') U = None
                   \<and> p = getSecureTokenPathWithFuzzyMatching d' dir U"
    using removeEntry_removes [of c1 d1 U]
    by (simp add: getSecureTokenPathWithCacheAndFuzzyMatching_def split_beta)
next
  fix e
  assume h: "U = ''__proto__'' \<and> map_of (cache_entries c) U = None
            \<and> entries_prototype c = Some e \<and> actualTokenFilename e \<noteq> []
            \<and> existsSync d (actualTokenFilename e)"
  then have "map_of (cache_entries c) ''__proto__'' = None" and "entries_prototype c = Some e"
    by auto
  from getTokenFilename_prototype_entry [OF this, of now d] h obtain c' d' where
    "getTokenFilename now c d ''__proto__'' = Some (Some (actualTokenFilename e), c', d')"
    "existsSync d' (actualTokenFilename e)"
    by blast
  with h show "fst (getSecureTokenPathWithCacheAndFuzzyMatching now c d dir U)
                = actualTokenFilename e"
    by (simp add: getSecureTokenPathWithCacheAndFuzzyMatching_def)
next
  assume h: "map_of (cache_entries c) U = None
        \<and> \<not> (U = ''__proto__'' \<and> entries_prototype c \<noteq> None)"
  from getTokenFilename_no_mapping [OF h [THEN conjunct1] h [THEN conjunct2], of now d]
  show "case getSecureTokenPathWithCacheAndFuzzyMatching now c d dir U of
               (p, c', d') \<Rightarrow>
                 p = getSecureTokenPathWithFuzzyMatching d' dir U
                 \<and> map_of (cache_entries c') U = None
                 \<and> (cacheFilePath c = path_join dir ''.userhash-cache.json''
                    \<longrightarrow> p = getSecureTokenPathWithFuzzyMatching d dir U)"
  proof
    assume "getTokenFilename now c d U = None"
    then show ?thesis
      using h by (simp add: getSecureTokenPathWithCacheAndFuzzyMatching_def)
  next
    assume "\<exists>c' d'. getTokenFilename now c d U = Some (None, c', d')
               \<and> cache_entries c' = cache_entries c
               \<and> (d' = d \<or> (\<exists>t. writeFile d (cacheFilePath c) t = Inr d'))"
    then obtain c' d' where g: "getTokenFilename now c d U = Some (None, c', d')"
      and ce: "cache_entries c' = cache_entries c"
      and w: "d' = d \<or> (\<exists>t. writeFile d (cacheFilePath c) t = Inr d')"
      by blast
    have r: "getSecureTokenPathWithCacheAndFuzzyMatching now c d dir U
               = (getSecureTokenPathWithFuzzyMatching d' dir U, c', d')"
      using g by (simp add: getSecureTokenPathWithCacheAndFuzzyMatching_def)
    have "cacheFilePath c = path_join dir ''.userhash-cache.json''
            \<longrightarrow> getSecureTokenPathWithFuzzyMatching d' dir U
                  = getSecureTokenPathWithFuzzyMatching d dir U"
    proof
      assume "cacheFilePath c = path_join dir ''.userhash-cache.json''"
      with w have "d' = d \<or> (\<exists>t. writeFile d (path_join dir ''.userhash-cache.json'') t = Inr d')"
        by simp
      then show "getSecureTokenPathWithFuzzyMatching d' dir U
                  = getSecureTokenPathWithFuzzyMatching d dir U"
        by (rule cache_write_keeps_resolution)
    qed
    then show ?thesis
      using r ce h by simp
  qed
next
  assume "map_of (cache_entries c) U = None \<and> inherited_get c U = NoProperty"
  then show "getSecureTokenPathWithCacheAndFuzzyMatching now c d dir U
              = (getSecureTokenPathWithFuzzyMatching d dir U, c, d)"
    by (simp add: getSecureTokenPathWithCacheAndFuzzyMatching_def getTokenFilename_def)
qed (simp_all add: finalCredPath_def getSecureTokenPathWithFuzzyMatching_def split: option.splits)

theorem load_resolution_order_witness:
  "finalCredPath
     \<lparr>fs_files = [(''/cfg/.u1-gcp-saved-tokens.json.save'', Doc (JObj [(''refresh_token'', JStr ''r'')]))],
      fs_faulty = []\<rparr> ''/cfg'' ''u1''
   = Some ''/cfg/.u1-gcp-saved-tokens.json.save''
   \<and> fst (getSecureTokenPathWithCacheAndFuzzyMatching 7
       \<lparr>cacheFilePath = ''/app/.userhash-cache.json'', cache_version = ''1.0.0'',
        cache_entries = [(''u1'', \<lparr>originalUserHashID = ''u1'',
                                   actualTokenFilename = ''/app/.u1old-gcp-saved-tokens.json'',
                                   createdAt = 1, lastAccessed = 1\<rparr>)],
        entries_prototype = None, Object_prototype_lastAccessed = None, isDirty = False\<rparr>
       \<lparr>fs_files = [(''/app/.u1old-gcp-saved-tokens.json'', Doc (JObj []))], fs_faulty = []\<rparr>
       ''/app'' ''u1'')
   = ''/app/.u1old-gcp-saved-tokens.json''
   \<and> fst (getSecureTokenPathWithCacheAndFuzzyMatching 7
       \<lparr>cacheFilePath = ''/app/.userhash-cache.json'', cache_version = ''1.0.0'',
        cache_entries = [(''u1'', \<lparr>originalUserHashID = ''u1'',
                                   actualTokenFilename = ''/app/.u1old-gcp-saved-tokens.json'',
                                   createdAt = 1, lastAccessed = 1\<rparr>)],
        entries_prototype = None, Object_prototype_lastAccessed = None, isDirty = False\<rparr>
       \<lparr>fs_files = [(''/app/.u1old-gcp-saved-tokens.json'', Doc (JObj []))], fs_faulty = []\<rparr>
       ''/app'' ''constructor'')
   = ''/app/.constructor-gcp-saved-tokens.json''"
proof -
  let ?d = "\<lparr>fs_files = [(''/cfg/.u1-gcp-saved-tokens.json.save'',
                          Doc (JObj [(''refresh_token'', JStr ''r'')]))],
             fs_faulty = []\<rparr>"
  let ?e = "\<lparr>originalUserHashID = ''u1'',
             actualTokenFilename = ''/app/.u1old-gcp-saved-tokens.json'',
             createdAt = 1, lastAccessed = 1\<rparr>"
  let ?c = "\<lparr>cacheFilePath = ''/app/.userhash-cache.json'', cache_version = ''1.0.0'',
             cache_entries = [(''u1'', ?e)], entries_prototype = None,
             Object_prototype_lastAccessed = None, isDirty = False\<rparr>"
  let ?d2 = "\<lparr>fs_files = [(''/app/.u1old-gcp-saved-tokens.json'', Doc (JObj []))],
              fs_faulty = []\<rparr>"
  have save: "\<not> existsSync ?d (getCredentialsPath ''/cfg'' ''u1'')
              \<and> existsSync ?d (getCredentialsPath ''/cfg'' ''u1'' @ ''.save'')"
    by (simp add: existsSync_def getCredentialsPath_def path_join_def)
  have hit: "map_of (cache_entries ?c) ''u1'' = Some ?e \<and> actualTokenFilename ?e \<noteq> []
              \<and> existsSync ?d2 (actualTokenFilename ?e)"
    by (simp add: existsSync_def)
  have miss: "map_of (cache_entries ?c) ''constructor'' = None
              \<and> \<not> (''constructor'' = ''__proto__'' \<and> entries_prototype ?c \<noteq> None)"
    by simp
  have cf: "cacheFilePath ?c = path_join ''/app'' ''.userhash-cache.json''"
    by (simp add: path_join_def)
  have fz: "getSecureTokenPathWithFuzzyMatching ?d2 ''/app'' ''constructor''
              = ''/app/.constructor-gcp-saved-tokens.json''"
    by code_simp
  obtain p c' d' where r: "getSecureTokenPathWithCacheAndFuzzyMatching 7 ?c ?d2 ''/app''
                             ''constructor'' = (p, c', d')"
    by (cases "getSecureTokenPathWithCacheAndFuzzyMatching 7 ?c ?d2 ''/app'' ''constructor''")
  note m = load_resolution_order [of ?d2 "''/app''" "''constructor''" ?c 7, THEN conjunct2,
            THEN conjunct2, THEN conjunct2, THEN conjunct2, THEN conjunct2, THEN conjunct2,
            THEN conjunct2, THEN conjunct1, rule_format, OF miss]
  note m' = m [unfolded r prod.case, THEN conjunct2, THEN conjunct2, THEN mp, OF cf]
  have "p = getSecureTokenPathWithFuzzyMatching ?d2 ''/app'' ''constructor''"
    by (rule m')
  with r fz have third: "fst (getSecureTokenPathWithCacheAndFuzzyMatching 7 ?c ?d2 ''/app''
                               ''constructor'') = ''/app/.constructor-gcp-saved-tokens.json''"
    by simp
  show ?thesis
    using load_resolution_order [of ?d "''/cfg''" "''u1''" ?c 7, THEN conjunct2, THEN conjunct1,
            rule_format, OF save]
          load_resolution_order [of ?d2 "''/app''" "''u1''" ?c 7, THEN conjunct2, THEN conjunct2,
            THEN conjunct2, THEN conjunct2, THEN conjunct1, rule_format, OF hit]
          third
    by (simp add: getCredentialsPath_def path_join_def)
qed

text \<open>
  The claim as stated fails: with the exact file of \<open>u1\<close> on disk and a lookup-cache
  mapping of \<open>u1\<close> to another existing file, the Calendar resolver returns the mapped
  file, so step (c) wins over step (a).
\<close>

theorem cache_before_exact_path_counterexample:
  "existsSync
     \<lparr>fs_files = [(''/app/.u1-gcp-saved-tokens.json'', Doc (JObj [])),
                  (''/app/.u1old-gcp-saved-tokens.json'', Doc (JObj []))], fs_faulty = []\<rparr>
     (getSecureTokenPathWithUserHash ''/app'' ''u1'')
   \<and> fst (getSecureTokenPathWithCacheAndFuzzyMatching 7
       \<lparr>cacheFilePath = ''/app/.userhash-cache.json'', cache_version = ''1.0.0'',
        cache_entries = [(''u1'', \<lparr>originalUserHashID = ''u1'',
                                   actualTokenFilename = ''/app/.u1old-gcp-saved-tokens.json'',
                                   createdAt = 1, lastAccessed = 1\<rparr>)],
        entries_prototype = None, Object_prototype_lastAccessed = None, isDirty = False\<rparr>
       \<lparr>fs_files = [(''/app/.u1-gcp-saved-tokens.json'', Doc (JObj [])),
                    (''/app/.u1old-gcp-saved-tokens.json'', Doc (JObj []))], fs_faulty = []\<rparr>
       ''/app'' ''u1'')
     = ''/app/.u1old-gcp-saved-tokens.json''
   \<and> getSecureTokenPathWithUserHash ''/app'' ''u1'' \<noteq> ''/app/.u1old-gcp-saved-tokens.json''"
  by (simp add: existsSync_def getSecureTokenPathWithUserHash_def path_join_def
        getSecureTokenPathWithCacheAndFuzzyMatching_def getTokenFilename_def saveCache_def
        writeFile_def)

end
